theory Spec2Isabelle
  imports Complex_Main "HOL-Library.Extended_Nat" "HOL-Library.AList"
begin

section \<open>JavaScript numbers\<close>

text \<open>
  The program computes in IEEE 754 binary64 (float64), the only number type of
  JavaScript. A \<open>number\<close> is NaN, an infinity, or a finite value. The two zeros are one
  value here: the program never tells them apart (\<^verbatim>\<open>===\<close>, \<^verbatim>\<open><\<close> and JSON output treat
  them alike), and wherever it divides by a zero that zero is \<open>+0\<close>.
\<close>

datatype number = NaN | PosInf | NegInf | Num real

text \<open>Rounding to the nearest integer, ties to the even one.\<close>

definition round_half_even :: "real \<Rightarrow> int" where
  "round_half_even q =
     (let f = \<lfloor>q\<rfloor>; r = q - of_int f
      in if r < 1 / 2 then f else if 1 / 2 < r then f + 1 else if even f then f else f + 1)"

text \<open>
  The exponent of the binade of \<open>x\<close>, where \<open>2 powi E \<le> \<bar>x\<bar> < 2 powi (E + 1)\<close>; below
  the normal range (subnormal numbers) it stays at \<open>-1022\<close>.
\<close>

definition binade :: "real \<Rightarrow> int" where
  "binade x = max \<lfloor>log 2 \<bar>x\<bar>\<rfloor> (- 1022)"

definition overflow_threshold :: real where
  "overflow_threshold = 2 ^ 1024"

text \<open>
  The float64 result of an operation whose exact result is \<open>x\<close>: \<open>x\<close> rounded to 53
  significant bits (to a multiple of \<open>2 powi (-1074)\<close> below the normal range), ties to
  even; a rounded magnitude of \<open>2 ^ 1024\<close> or more is an infinity.
\<close>

definition fl :: "real \<Rightarrow> number" where
  "fl x =
     (if x = 0 then Num 0
      else (let e = binade x - 52;
                y = of_int (round_half_even (x / 2 powi e)) * 2 powi e
            in if overflow_threshold \<le> \<bar>y\<bar> then (if 0 < x then PosInf else NegInf) else Num y))"

text \<open>The four operations and the square root, correctly rounded, with the special values.\<close>

fun fadd :: "number \<Rightarrow> number \<Rightarrow> number" where
  "fadd (Num x) (Num y) = fl (x + y)"
| "fadd (Num x) PosInf = PosInf"
| "fadd (Num x) NegInf = NegInf"
| "fadd PosInf (Num y) = PosInf"
| "fadd NegInf (Num y) = NegInf"
| "fadd PosInf PosInf = PosInf"
| "fadd NegInf NegInf = NegInf"
| "fadd _ _ = NaN"

fun fneg :: "number \<Rightarrow> number" where
  "fneg (Num x) = Num (- x)"
| "fneg PosInf = NegInf"
| "fneg NegInf = PosInf"
| "fneg NaN = NaN"

definition fsub :: "number \<Rightarrow> number \<Rightarrow> number" where
  "fsub a b = fadd a (fneg b)"

fun fmul :: "number \<Rightarrow> number \<Rightarrow> number" where
  "fmul (Num x) (Num y) = fl (x * y)"
| "fmul (Num x) PosInf = (if x = 0 then NaN else if 0 < x then PosInf else NegInf)"
| "fmul (Num x) NegInf = (if x = 0 then NaN else if 0 < x then NegInf else PosInf)"
| "fmul PosInf (Num y) = (if y = 0 then NaN else if 0 < y then PosInf else NegInf)"
| "fmul NegInf (Num y) = (if y = 0 then NaN else if 0 < y then NegInf else PosInf)"
| "fmul PosInf PosInf = PosInf"
| "fmul PosInf NegInf = NegInf"
| "fmul NegInf PosInf = NegInf"
| "fmul NegInf NegInf = PosInf"
| "fmul _ _ = NaN"

fun fdiv :: "number \<Rightarrow> number \<Rightarrow> number" where
  "fdiv (Num x) (Num y) =
     (if y = 0 then (if x = 0 then NaN else if 0 < x then PosInf else NegInf)
      else fl (x / y))"
| "fdiv (Num x) PosInf = Num 0"
| "fdiv (Num x) NegInf = Num 0"
| "fdiv PosInf (Num y) = (if 0 \<le> y then PosInf else NegInf)"
| "fdiv NegInf (Num y) = (if 0 \<le> y then NegInf else PosInf)"
| "fdiv _ _ = NaN"

fun fsqrt :: "number \<Rightarrow> number" where
  "fsqrt (Num x) = (if x < 0 then NaN else fl (sqrt x))"
| "fsqrt PosInf = PosInf"
| "fsqrt NegInf = NaN"
| "fsqrt NaN = NaN"

text \<open>The finite float64 values: 53 significant bits, exponent range of binary64.\<close>

definition double :: "real \<Rightarrow> bool" where
  "double x =
     (\<exists>m p. x = of_int m * 2 powi p \<and> \<bar>m\<bar> < 2 ^ 53 \<and> - 1074 \<le> p \<and> \<bar>x\<bar> < overflow_threshold)"

section \<open>Data model\<close>

text \<open>
  The service of \<^verbatim>\<open>src/stock/index.js\<close> works on price histories: JSON arrays of
  objects \<^verbatim>\<open>{price, lastUpdatedAt}\<close>. A price is a JavaScript number. The field
  \<open>lastUpdatedAt\<close> is only ever used through \<^verbatim>\<open>new Date(entry.lastUpdatedAt)\<close>, so the
  model stores the time value of that date in milliseconds, \<open>None\<close> standing for an Invalid
  Date (time value NaN).
\<close>

record price_point =
  price :: number
  lastUpdatedAt :: "int option"

text \<open>\<^verbatim>\<open>xs[i]\<close> used as a number: out of range it is \<^verbatim>\<open>undefined\<close>, which arithmetic turns into NaN.\<close>

definition at_index :: "number list \<Rightarrow> nat \<Rightarrow> number" where
  "at_index xs i = (if i < length xs then xs ! i else NaN)"

section \<open>Average price (lines 21-25)\<close>

definition calculateAveragePrice :: "price_point list \<Rightarrow> number" where
  "calculateAveragePrice priceHistory =
     (if length priceHistory = 0 then Num 0
      else (let sum = foldl (\<lambda>acc curr. fadd acc (price curr)) (Num 0) priceHistory
            in fdiv sum (Num (real (length priceHistory)))))"

section \<open>Pearson correlation (lines 94-120)\<close>

text \<open>Lines 98-99: \<^verbatim>\<open>prices.reduce((sum, x) => sum + x, 0) / n\<close>.\<close>

definition series_mean :: "number list \<Rightarrow> nat \<Rightarrow> number" where
  "series_mean prices n = fdiv (foldl (\<lambda>sum x. fadd sum x) (Num 0) prices) (Num (real n))"

text \<open>One iteration of the loop of lines 106-112, on the accumulators \<open>(cov, stdDev1, stdDev2)\<close>.\<close>

fun correlation_step ::
  "number list \<Rightarrow> number list \<Rightarrow> number \<Rightarrow> number \<Rightarrow> number \<times> number \<times> number \<Rightarrow> nat
     \<Rightarrow> number \<times> number \<times> number" where
  "correlation_step prices1 prices2 mean1 mean2 (cov, stdDev1, stdDev2) i =
     (let diff1 = fsub (at_index prices1 i) mean1;
          diff2 = fsub (at_index prices2 i) mean2
      in (fadd cov (fmul diff1 diff2),
          fadd stdDev1 (fmul diff1 diff1),
          fadd stdDev2 (fmul diff2 diff2)))"

text \<open>
  Lines 97-116: the means, the loop, and the division by \<open>n - 1\<close>. The result is the triple
  \<open>(cov, stdDev1, stdDev2)\<close> that line 118 tests. Both means divide by the length of the
  first series, and the loop reads both series at the indices of the first. The length of
  an array is below \<open>2 ^ 32\<close>, so \<open>n\<close> and \<open>n - 1\<close> are exact.
\<close>

definition moments :: "number list \<Rightarrow> number list \<Rightarrow> number \<times> number \<times> number" where
  "moments prices1 prices2 =
     (let n = length prices1;
          mean1 = series_mean prices1 n;
          mean2 = series_mean prices2 n;
          (cov, stdDev1, stdDev2) =
             foldl (correlation_step prices1 prices2 mean1 mean2) (Num 0, Num 0, Num 0) [0..<n]
      in (fdiv cov (Num (real n - 1)),
          fsqrt (fdiv stdDev1 (Num (real n - 1))),
          fsqrt (fdiv stdDev2 (Num (real n - 1)))))"

text \<open>The test of line 118, and the dividend and the divisor of line 119.\<close>

definition zero_stddev_guard :: "number list \<Rightarrow> number list \<Rightarrow> bool" where
  "zero_stddev_guard prices1 prices2 =
     (case moments prices1 prices2 of (cov, stdDev1, stdDev2) \<Rightarrow>
        stdDev1 = Num 0 \<or> stdDev2 = Num 0)"

definition covariance :: "number list \<Rightarrow> number list \<Rightarrow> number" where
  "covariance prices1 prices2 = (case moments prices1 prices2 of (cov, stdDev1, stdDev2) \<Rightarrow> cov)"

definition divisor :: "number list \<Rightarrow> number list \<Rightarrow> number" where
  "divisor prices1 prices2 =
     (case moments prices1 prices2 of (cov, stdDev1, stdDev2) \<Rightarrow> fmul stdDev1 stdDev2)"

definition calculateCorrelation :: "number list \<Rightarrow> number list \<Rightarrow> number" where
  "calculateCorrelation prices1 prices2 =
     (if length prices1 < 2 \<or> length prices2 < 2 then Num 0
      else if zero_stddev_guard prices1 prices2 then Num 0
      else fdiv (covariance prices1 prices2) (divisor prices1 prices2))"

text \<open>A series all of whose points are equal.\<close>

definition is_constant :: "number list \<Rightarrow> bool" where
  "is_constant xs = (case xs of [] \<Rightarrow> True | x # rest \<Rightarrow> list_all (\<lambda>y. y = x) rest)"

section \<open>Alignment by nearest timestamp (lines 51-91)\<close>

text \<open>
  \<^verbatim>\<open>new Date(t)\<close> for a number \<open>t\<close>: the time value is clipped (ECMAScript TimeClip): NaN,
  the infinities and magnitudes above \<open>8.64e15\<close> ms give an Invalid Date, any other value
  is truncated towards zero to whole milliseconds.
\<close>

definition new_Date :: "number \<Rightarrow> int option" where
  "new_Date t =
     (case t of
        Num x \<Rightarrow>
          if \<bar>x\<bar> > 8640000000000000 then None
          else Some (if 0 \<le> x then \<lfloor>x\<rfloor> else \<lceil>x\<rceil>)
      | _ \<Rightarrow> None)"

text \<open>
  Line 53: \<^verbatim>\<open>new Date(endTime.getTime() - minutes * 60 * 1000)\<close>, in float64. \<open>endTime\<close> is
  the clock reading of line 52 (\<^verbatim>\<open>new Date()\<close>), in milliseconds; \<open>minutes\<close> is the numeric
  value of the window.
\<close>

definition window_start :: "int \<Rightarrow> number \<Rightarrow> int option" where
  "window_start endTime minutes =
     new_Date (fsub (Num (real_of_int endTime)) (fmul (fmul minutes (Num 60)) (Num 1000)))"

text \<open>
  Lines 56-61. A comparison with an Invalid Date (NaN) is false, so an entry whose timestamp
  does not parse is dropped, and so is every entry when \<open>startTime\<close> is invalid.
\<close>

definition filterByTime :: "int option \<Rightarrow> int \<Rightarrow> price_point list \<Rightarrow> price_point list" where
  "filterByTime startTime endTime history =
     filter (\<lambda>entry.
        case (lastUpdatedAt entry, startTime) of
          (Some entryTime, Some start) \<Rightarrow> entryTime \<ge> start \<and> entryTime \<le> endTime
        | _ \<Rightarrow> False) history"

text \<open>
  The inner loop of lines 75-82, with its two variables \<open>closest\<close> (initially null) and
  \<open>minDiff\<close> (initially Infinity). A NaN difference is never smaller than \<open>minDiff\<close>.
  Time values are whole numbers of milliseconds; their difference is taken exactly, as
  float64 does up to \<open>2 ^ 53\<close> ms (some 285 000 years).
\<close>

fun closest_scan ::
  "int option \<Rightarrow> price_point list \<Rightarrow> price_point option \<Rightarrow> enat \<Rightarrow> price_point option" where
  "closest_scan time1 [] closest minDiff = closest"
| "closest_scan time1 (entry2 # rest) closest minDiff =
     (case (time1, lastUpdatedAt entry2) of
        (Some t1, Some time2) \<Rightarrow>
          (let diff = nat \<bar>t1 - time2\<bar>
           in if enat diff < minDiff then closest_scan time1 rest (Some entry2) (enat diff)
              else closest_scan time1 rest closest minDiff)
      | _ \<Rightarrow> closest_scan time1 rest closest minDiff)"

text \<open>The outer loop of lines 70-88, on the two result arrays.\<close>

fun align_loop ::
  "price_point list \<Rightarrow> price_point list \<Rightarrow> number list \<times> number list \<Rightarrow> number list \<times> number list" where
  "align_loop [] filtered2 (aligned1, aligned2) = (aligned1, aligned2)"
| "align_loop (entry1 # rest) filtered2 (aligned1, aligned2) =
     (case closest_scan (lastUpdatedAt entry1) filtered2 None \<infinity> of
        None \<Rightarrow> align_loop rest filtered2 (aligned1, aligned2)
      | Some closest \<Rightarrow>
          align_loop rest filtered2 (aligned1 @ [price entry1], aligned2 @ [price closest]))"

text \<open>The clock reading \<open>now\<close> of line 52 is an explicit argument.\<close>

definition alignPriceHistories ::
  "price_point list \<Rightarrow> price_point list \<Rightarrow> number \<Rightarrow> int \<Rightarrow> number list \<times> number list" where
  "alignPriceHistories history1 history2 minutes now =
     (let endTime = now;
          startTime = window_start endTime minutes;
          filtered1 = filterByTime startTime endTime history1;
          filtered2 = filterByTime startTime endTime history2
      in align_loop filtered1 filtered2 ([], []))"

section \<open>The cache and the fetch (lines 12, 28-48)\<close>

text \<open>
  Modelled from the spec: the cache is an instance of the library class NodeCache, whose code
  is not part of the source file. The spec (4.1) gives its contract: \<open>get\<close> and \<open>set\<close> on
  a key, an entry carrying the instant \<open>expiresAt\<close>, a fixed time-to-live of 300 seconds
  measured from insertion, and a miss for every \<open>get\<close> later than that. A \<open>get\<close> at the
  instant \<open>expiresAt\<close> itself still hits. Times are milliseconds.
\<close>

record cache_entry =
  cached :: "price_point list"
  expiresAt :: int

type_synonym cache_store = "string \<Rightarrow> cache_entry option"

definition stdTTL :: int where
  "stdTTL = 300"

definition cache_get :: "cache_store \<Rightarrow> string \<Rightarrow> int \<Rightarrow> price_point list option" where
  "cache_get c key now =
     (case c key of
        None \<Rightarrow> None
      | Some e \<Rightarrow> if expiresAt e < now then None else Some (cached e))"

definition cache_set :: "cache_store \<Rightarrow> string \<Rightarrow> price_point list \<Rightarrow> int \<Rightarrow> cache_store" where
  "cache_set c key v now = c(key \<mapsto> \<lparr>cached = v, expiresAt = now + stdTTL * 1000\<rparr>)"

text \<open>
  What the upstream feed answers to one request: a failure (transport error or non-success
  status) with its message, a JSON array of points, or a JSON object wrapping one point
  under \<open>stock\<close>.
\<close>

datatype upstream_response =
  RequestFailed string
| ArrayBody "price_point list"
| StockBody price_point

text \<open>The feed: ticker, minutes and the time at which the response arrives.\<close>

type_synonym upstream = "string \<Rightarrow> string \<Rightarrow> int \<Rightarrow> upstream_response"

text \<open>The state the fetch works on: the cache, and the log of the upstream requests issued.\<close>

record world =
  cache :: cache_store
  upstreamCalls :: "(string \<times> string) list"

definition cacheKey :: "string \<Rightarrow> string \<Rightarrow> string" where
  "cacheKey ticker minutes = ticker @ '':'' @ minutes"

text \<open>
  Lines 29-37, up to the \<open>await\<close>: the cache lookup, and on a miss the request is issued.
  A cached value is an array, which is truthy also when empty.
\<close>

definition fetch_start :: "string \<Rightarrow> string \<Rightarrow> int \<Rightarrow> world \<Rightarrow> price_point list option \<times> world" where
  "fetch_start ticker minutes now w =
     (case cache_get (cache w) (cacheKey ticker minutes) now of
        Some cachedData \<Rightarrow> (Some cachedData, w)
      | None \<Rightarrow> (None, w\<lparr>upstreamCalls := upstreamCalls w @ [(ticker, minutes)]\<rparr>))"

text \<open>Lines 42-47, after the \<open>await\<close>: the response arrives at time \<open>now\<close>.\<close>

definition fetch_finish ::
  "upstream \<Rightarrow> string \<Rightarrow> string \<Rightarrow> int \<Rightarrow> world \<Rightarrow> (string + price_point list) \<times> world" where
  "fetch_finish up ticker minutes now w =
     (case up ticker minutes now of
        RequestFailed message \<Rightarrow>
          (Inl (''Failed to fetch data for '' @ ticker @ '': '' @ message), w)
      | ArrayBody points \<Rightarrow>
          (Inr points, w\<lparr>cache := cache_set (cache w) (cacheKey ticker minutes) points now\<rparr>)
      | StockBody point \<Rightarrow>
          (Inr [point], w\<lparr>cache := cache_set (cache w) (cacheKey ticker minutes) [point] now\<rparr>))"

text \<open>
  How a started fetch ends: a cache hit returned at once, otherwise the response (arriving
  at time \<open>now\<close>) decides.
\<close>

definition fetch_settle ::
  "upstream \<Rightarrow> string \<Rightarrow> string \<Rightarrow> int \<Rightarrow> price_point list option \<Rightarrow> world
     \<Rightarrow> (string + price_point list) \<times> world" where
  "fetch_settle up ticker minutes now started w =
     (case started of
        Some cachedData \<Rightarrow> (Inr cachedData, w)
      | None \<Rightarrow> fetch_finish up ticker minutes now w)"

text \<open>
  One whole call: the lookup happens at \<open>tGet\<close>, the response (if a request was issued)
  arrives at \<open>tResponse\<close>.
\<close>

definition fetchStockPriceHistory ::
  "upstream \<Rightarrow> string \<Rightarrow> string \<Rightarrow> int \<Rightarrow> int \<Rightarrow> world \<Rightarrow> (string + price_point list) \<times> world" where
  "fetchStockPriceHistory up ticker minutes tGet tResponse w =
     (case fetch_start ticker minutes tGet w of
        (started, w') \<Rightarrow> fetch_settle up ticker minutes tResponse started w')"

section \<open>The correlation operation (lines 149-187)\<close>

text \<open>
  A query parameter as the framework hands it over: absent, one string, or an array of
  strings when the parameter is repeated. \<open>minutes\<close> is read as a string.
\<close>

datatype query_value = Absent | Single string | Multiple "string list"

record query =
  q_minutes :: "string option"
  q_ticker :: query_value

text \<open>
  The instants of one request: the handler starts both fetches at \<open>tRequest\<close>, the two
  responses arrive at \<open>tResponse1\<close> and \<open>tResponse2\<close>, and line 52 reads the clock at
  \<open>tAlign\<close>.
\<close>

record timing =
  tRequest :: int
  tResponse1 :: int
  tResponse2 :: int
  tAlign :: int

record stock_summary =
  averagePrice :: number
  priceHistory :: "price_point list"

record correlation_body =
  correlation :: number
  stocks :: "(string \<times> stock_summary) list"

datatype response =
  Status400 string
| Status500 string
| Status200 correlation_body

text \<open>
  Line 152: \<^verbatim>\<open>!minutes || isNaN(minutes) || minutes <= 0\<close>. The coercion of a string to a
  number is the language's (\<open>ToNumber\<close>), taken as a parameter.
\<close>

definition invalid_minutes :: "(string \<Rightarrow> number) \<Rightarrow> string option \<Rightarrow> bool" where
  "invalid_minutes ToNumber m =
     (case m of
        None \<Rightarrow> True
      | Some s \<Rightarrow>
          s = [] \<or> ToNumber s = NaN
          \<or> (case ToNumber s of Num x \<Rightarrow> x \<le> 0 | NegInf \<Rightarrow> True | _ \<Rightarrow> False))"

text \<open>Line 156: \<^verbatim>\<open>!ticker || !Array.isArray(ticker) || ticker.length !== 2\<close>.\<close>

fun invalid_ticker :: "query_value \<Rightarrow> bool" where
  "invalid_ticker Absent = True"
| "invalid_ticker (Single s) = True"
| "invalid_ticker (Multiple ts) = (length ts \<noteq> 2)"

text \<open>
  Lines 163-166, \<^verbatim>\<open>Promise.all\<close> of the two fetches: both are started before either
  response arrives, the responses are handled in the order of their arrival, and the first
  failure to arrive is the one reported.
\<close>

definition fetch_both ::
  "upstream \<Rightarrow> string \<Rightarrow> string \<Rightarrow> string \<Rightarrow> timing \<Rightarrow> world
     \<Rightarrow> (string + price_point list \<times> price_point list) \<times> world" where
  "fetch_both up ticker1 ticker2 minutes tm w =
     (case fetch_start ticker1 minutes (tRequest tm) w of (started1, w1) \<Rightarrow>
      case fetch_start ticker2 minutes (tRequest tm) w1 of (started2, w2) \<Rightarrow>
        if tResponse1 tm \<le> tResponse2 tm then
          (case fetch_settle up ticker1 minutes (tResponse1 tm) started1 w2 of (r1, w3) \<Rightarrow>
           case fetch_settle up ticker2 minutes (tResponse2 tm) started2 w3 of (r2, w4) \<Rightarrow>
             (case r1 of
                Inl message \<Rightarrow> Inl message
              | Inr history1 \<Rightarrow>
                  (case r2 of Inl message \<Rightarrow> Inl message
                   | Inr history2 \<Rightarrow> Inr (history1, history2)), w4))
        else
          (case fetch_settle up ticker2 minutes (tResponse2 tm) started2 w2 of (r2, w3) \<Rightarrow>
           case fetch_settle up ticker1 minutes (tResponse1 tm) started1 w3 of (r1, w4) \<Rightarrow>
             (case r2 of
                Inl message \<Rightarrow> Inl message
              | Inr history2 \<Rightarrow>
                  (case r1 of Inl message \<Rightarrow> Inl message
                   | Inr history1 \<Rightarrow> Inr (history1, history2)), w4)))"

text \<open>Lines 168-183: the body of the successful response.\<close>

definition correlation_result ::
  "string \<Rightarrow> string \<Rightarrow> price_point list \<Rightarrow> price_point list \<Rightarrow> number \<Rightarrow> int \<Rightarrow> correlation_body" where
  "correlation_result ticker1 ticker2 history1 history2 minutes now =
     (case alignPriceHistories history1 history2 minutes now of
        (alignedPrices1, alignedPrices2) \<Rightarrow>
          \<lparr>correlation = calculateCorrelation alignedPrices1 alignedPrices2,
           stocks =
             AList.update ticker2
               \<lparr>averagePrice = calculateAveragePrice history2, priceHistory = history2\<rparr>
               (AList.update ticker1
                 \<lparr>averagePrice = calculateAveragePrice history1, priceHistory = history1\<rparr> [])\<rparr>)"

definition stockcorrelation ::
  "(string \<Rightarrow> number) \<Rightarrow> upstream \<Rightarrow> timing \<Rightarrow> query \<Rightarrow> world \<Rightarrow> response \<times> world" where
  "stockcorrelation ToNumber up tm q w =
     (if invalid_minutes ToNumber (q_minutes q) then
        (Status400 ''Invalid minutes parameter.'', w)
      else if invalid_ticker (q_ticker q) then
        (Status400 ''Exactly two tickers are required.'', w)
      else
        (case (q_minutes q, q_ticker q) of
           (Some minutes, Multiple [ticker1, ticker2]) \<Rightarrow>
             (case fetch_both up ticker1 ticker2 minutes tm w of
                (Inl message, w') \<Rightarrow> (Status500 message, w')
              | (Inr (history1, history2), w') \<Rightarrow>
                  (Status200
                     (correlation_result ticker1 ticker2 history1 history2
                        (ToNumber minutes) (tAlign tm)), w'))
         | _ \<Rightarrow> (Status400 ''Exactly two tickers are required.'', w)))"


section \<open>The specification's notions\<close>

text \<open>
  The window of the specification (4.3, step 1): a point is inside when its timestamp
  \<open>t\<close> satisfies \<open>startTime \<le> t \<le> endTime\<close>, both ends included.
\<close>

definition spec_in_window :: "int option \<Rightarrow> int \<Rightarrow> price_point \<Rightarrow> bool" where
  "spec_in_window startTime endTime p =
     (\<exists>s t. startTime = Some s \<and> lastUpdatedAt p = Some t \<and> s \<le> t \<and> t \<le> endTime)"


text \<open>
  The ticker condition of the specification (4.5): exactly two distinct ticker symbols.
\<close>

definition spec_two_distinct_tickers :: "query_value \<Rightarrow> bool" where
  "spec_two_distinct_tickers v =
     (case v of Multiple [ticker1, ticker2] \<Rightarrow> ticker1 \<noteq> ticker2 | _ \<Rightarrow> False)"


section \<open>Properties of the rounding\<close>

lemma rhe_floor: "\<lfloor>q\<rfloor> \<le> round_half_even q \<and> round_half_even q \<le> \<lfloor>q\<rfloor> + 1"
  by (simp add: round_half_even_def Let_def)

lemma rhe_int [simp]: "round_half_even (of_int n) = n"
  by (simp add: round_half_even_def Let_def)

lemma rhe_err: "\<bar>of_int (round_half_even q) - q\<bar> \<le> 1 / 2"
proof -
  have "of_int \<lfloor>q\<rfloor> \<le> q" "q < of_int \<lfloor>q\<rfloor> + 1" by linarith+
  then show ?thesis
    by (auto simp: round_half_even_def Let_def abs_le_iff)
qed

lemma rhe_ge: "of_int k \<le> q \<Longrightarrow> k \<le> round_half_even q"
proof -
  assume "of_int k \<le> q"
  then have "k \<le> \<lfloor>q\<rfloor>" by (simp add: le_floor_iff)
  with rhe_floor[of q] show ?thesis by linarith
qed

lemma rhe_le: "q \<le> of_int k \<Longrightarrow> round_half_even q \<le> k"
proof -
  assume a: "q \<le> of_int k"
  then have "\<lfloor>q\<rfloor> \<le> \<lfloor>real_of_int k\<rfloor>" by (rule floor_mono)
  then have f: "\<lfloor>q\<rfloor> \<le> k" by simp
  show ?thesis
  proof (cases "\<lfloor>q\<rfloor> = k")
    case True
    then have "q = of_int k" using a by linarith
    then show ?thesis by simp
  next
    case False
    with f rhe_floor[of q] show ?thesis by linarith
  qed
qed

lemma rhe_pos: "1 / 2 < q \<Longrightarrow> 1 \<le> round_half_even q"
proof -
  assume a: "1 / 2 < q"
  then have "0 \<le> \<lfloor>q\<rfloor>" by simp
  then consider "\<lfloor>q\<rfloor> = 0" | "1 \<le> \<lfloor>q\<rfloor>" by linarith
  then show ?thesis
  proof cases
    case 1
    then show ?thesis using a by (simp add: round_half_even_def Let_def)
  next
    case 2
    then show ?thesis using rhe_floor[of q] by linarith
  qed
qed

lemma log2_bounds:
  assumes "x \<noteq> 0"
  shows "2 powi \<lfloor>log 2 \<bar>x\<bar>\<rfloor> \<le> \<bar>x\<bar>" "\<bar>x\<bar> < 2 powi (\<lfloor>log 2 \<bar>x\<bar>\<rfloor> + 1)"
proof -
  have "0 < \<bar>x\<bar>" using assms by simp
  from floor_log_eq_powr_iff[OF this, of 2 "\<lfloor>log 2 \<bar>x\<bar>\<rfloor>"]
  have "2 powr real_of_int \<lfloor>log 2 \<bar>x\<bar>\<rfloor> \<le> \<bar>x\<bar>"
       "\<bar>x\<bar> < 2 powr (real_of_int \<lfloor>log 2 \<bar>x\<bar>\<rfloor> + 1)"
    by simp_all
  moreover have "real_of_int \<lfloor>log 2 \<bar>x\<bar>\<rfloor> + 1 = real_of_int (\<lfloor>log 2 \<bar>x\<bar>\<rfloor> + 1)" by simp
  ultimately show "2 powi \<lfloor>log 2 \<bar>x\<bar>\<rfloor> \<le> \<bar>x\<bar>" "\<bar>x\<bar> < 2 powi (\<lfloor>log 2 \<bar>x\<bar>\<rfloor> + 1)"
    by (simp_all only: powr_real_of_int' [of 2, simplified])
qed

lemma powi2_less_cancel: "(2::real) powi a < 2 powi b \<Longrightarrow> a < b"
  by (rule ccontr) (use power_int_increasing[of b a "2::real"] in auto)

lemma powi2_le_cancel: "(2::real) powi a \<le> 2 powi b \<Longrightarrow> a \<le> b"
  by (rule ccontr) (use power_int_strict_increasing[of b a "2::real"] in auto)

lemma log2_floor_eq:
  assumes "2 powi E \<le> \<bar>x\<bar>" "\<bar>x\<bar> < 2 powi (E + 1)"
  shows "\<lfloor>log 2 \<bar>x\<bar>\<rfloor> = E"
proof -
  have "0 < (2::real) powi E" by simp
  with assms(1) have "0 < \<bar>x\<bar>" by linarith
  then have nz: "x \<noteq> 0" by simp
  from log2_bounds[OF nz] assms
  have "2 powi \<lfloor>log 2 \<bar>x\<bar>\<rfloor> < (2::real) powi (E + 1)" "(2::real) powi E < 2 powi (\<lfloor>log 2 \<bar>x\<bar>\<rfloor> + 1)"
    by linarith+
  then have "\<lfloor>log 2 \<bar>x\<bar>\<rfloor> < E + 1" "E < \<lfloor>log 2 \<bar>x\<bar>\<rfloor> + 1"
    by (auto dest: powi2_less_cancel)
  then show ?thesis by linarith
qed

text \<open>The rounding of a number whose binade is known.\<close>

lemma fl_in_binade:
  assumes "2 powi E \<le> \<bar>x\<bar>" "\<bar>x\<bar> < 2 powi (E + 1)" "e = max E (- 1022) - 52"
  shows "fl x =
     (if overflow_threshold \<le> \<bar>of_int (round_half_even (x / 2 powi e)) * 2 powi e\<bar>
      then (if 0 < x then PosInf else NegInf)
      else Num (of_int (round_half_even (x / 2 powi e)) * 2 powi e))"
proof -
  have "0 < (2::real) powi E" by simp
  with assms(1) have "0 < \<bar>x\<bar>" by linarith
  then have nz: "x \<noteq> 0" by simp
  have "binade x - 52 = e"
    by (simp add: binade_def log2_floor_eq[OF assms(1,2)] assms(3))
  then show ?thesis using nz by (simp add: fl_def Let_def)
qed


lemma binade_cases:
  assumes "x \<noteq> 0"
  obtains E where "2 powi E \<le> \<bar>x\<bar>" "\<bar>x\<bar> < 2 powi (E + 1)" "binade x = max E (- 1022)"
  using log2_bounds[OF assms] by (auto simp: binade_def)

lemma powi_split: "(2::real) powi a = 2 powi (a - b) * 2 powi b"
  by (simp flip: power_int_add)

text \<open>A double is its own rounding.\<close>

lemma fl_double:
  assumes "double x"
  shows "fl x = Num x"
proof (cases "x = 0")
  case True
  then show ?thesis by (simp add: fl_def)
next
  case False
  from assms obtain m p where mp: "x = of_int m * 2 powi p" "\<bar>m\<bar> < 2 ^ 53" "- 1074 \<le> p"
    and small: "\<bar>x\<bar> < overflow_threshold"
    by (auto simp: double_def)
  from binade_cases[OF False] obtain E where E: "2 powi E \<le> \<bar>x\<bar>" "\<bar>x\<bar> < 2 powi (E + 1)"
     "binade x = max E (- 1022)" by blast
  define e where "e = binade x - 52"
  have "\<bar>x\<bar> = \<bar>real_of_int m\<bar> * 2 powi p"
    by (simp add: mp(1) abs_mult)
  also have "\<dots> < 2 ^ 53 * 2 powi p"
    using mp(2) by (intro mult_strict_right_mono) (simp_all add: abs_less_iff)
  also have "\<dots> = 2 powi (53 + p)"
    by (simp add: power_int_add)
  finally have "(2::real) powi E < 2 powi (53 + p)" using E(1) by linarith
  then have "E < 53 + p" by (rule powi2_less_cancel)
  then have ep: "e \<le> p" using mp(3) by (simp add: e_def E(3))
  have "x / 2 powi e = of_int m * 2 powi (p - e)"
    by (simp add: mp(1) power_int_diff)
  also have "\<dots> = of_int (m * 2 ^ nat (p - e))"
    using ep by (simp add: power_int_def)
  finally have q: "x / 2 powi e = of_int (m * 2 ^ nat (p - e))" .
  have "real_of_int (round_half_even (x / 2 powi e)) = x / 2 powi e"
    by (simp only: q rhe_int)
  then have "of_int (round_half_even (x / 2 powi e)) * 2 powi e = x"
    by simp
  then show ?thesis
    using False small by (simp add: fl_def Let_def e_def[symmetric])
qed


lemma pow53_small: "(2::real) ^ 53 < overflow_threshold"
  unfolding overflow_threshold_def by (rule power_strict_increasing) simp_all

lemma abs_int_real: "\<bar>k\<bar> \<le> 2 ^ 53 \<Longrightarrow> \<bar>real_of_int k\<bar> \<le> 2 ^ 53"
proof -
  assume "\<bar>k\<bar> \<le> 2 ^ 53"
  then have "real_of_int \<bar>k\<bar> \<le> real_of_int (2 ^ 53)" by (simp only: of_int_le_iff)
  then show ?thesis by simp
qed


lemma double_int: "\<bar>k\<bar> \<le> 2 ^ 53 \<Longrightarrow> double (of_int k)"
proof -
  assume le: "\<bar>k\<bar> \<le> 2 ^ 53"
  have small: "\<bar>real_of_int k\<bar> < overflow_threshold"
    using abs_int_real[OF le] pow53_small by linarith
  show ?thesis
  proof (cases "\<bar>k\<bar> = 2 ^ 53")
    case True
    have k2: "real_of_int k = real_of_int (k div 2) * 2 powi 1"
    proof -
      have "even k" using True by (metis even_abs_add_iff even_add even_numeral even_power zero_less_numeral)
      then have "k = k div 2 * 2" by simp
      then have "real_of_int k = real_of_int (k div 2 * 2)" by simp
      then show ?thesis by (simp only: of_int_mult power_int_1_right of_int_numeral)
    qed
    have "k = 9007199254740992 \<or> k = - 9007199254740992"
      using True by (simp add: abs_if split: if_splits)
    then have "\<bar>k div 2\<bar> < 2 ^ 53" by auto
    with k2 small show ?thesis unfolding double_def
      by (intro exI[of _ "k div 2"] exI[of _ 1]) simp
  next
    case False
    with le have "\<bar>k\<bar> < 2 ^ 53" by simp
    with small show ?thesis unfolding double_def
      by (intro exI[of _ k] exI[of _ 0]) simp
  qed
qed


lemma fl_int: "\<bar>k\<bar> \<le> 2 ^ 53 \<Longrightarrow> fl (of_int k) = Num (of_int k)"
  by (rule fl_double) (rule double_int)

lemma fl_rel:
  assumes "2 powi (- 1022) \<le> \<bar>x\<bar>" "\<bar>x\<bar> \<le> 2 ^ 1023"
  obtains y where "fl x = Num y" "\<bar>y - x\<bar> \<le> \<bar>x\<bar> / 2 ^ 53"
proof -
  have "0 < (2::real) powi (- 1022)" by (rule zero_less_power_int) simp
  with assms(1) have nz: "x \<noteq> 0" by auto
  from binade_cases[OF nz] obtain E where E: "2 powi E \<le> \<bar>x\<bar>" "\<bar>x\<bar> < 2 powi (E + 1)"
     "binade x = max E (- 1022)" by blast
  from assms(1) E(2) have "(2::real) powi (- 1022) < 2 powi (E + 1)" by linarith
  then have "- 1022 < E + 1" by (rule powi2_less_cancel)
  then have b: "binade x = E" using E(3) by simp
  define e where "e = E - 52"
  define y where "y = real_of_int (round_half_even (x / 2 powi e)) * 2 powi e"
  have pe: "0 < (2::real) powi e" by (rule zero_less_power_int) simp
  have "y - x = (real_of_int (round_half_even (x / 2 powi e)) - x / 2 powi e) * 2 powi e"
    using pe by (simp add: y_def field_simps)
  then have "\<bar>y - x\<bar> = \<bar>real_of_int (round_half_even (x / 2 powi e)) - x / 2 powi e\<bar> * 2 powi e"
    using pe by (simp add: abs_mult)
  also have "\<dots> \<le> 1 / 2 * 2 powi e"
    using pe rhe_err[of "x / 2 powi e"] by (intro mult_right_mono) simp_all
  also have "\<dots> = 2 powi E / 2 ^ 53"
    by (simp add: e_def power_int_diff)
  also have "\<dots> \<le> \<bar>x\<bar> / 2 ^ 53"
    using E(1) by (simp add: divide_right_mono)
  finally have err: "\<bar>y - x\<bar> \<le> \<bar>x\<bar> / 2 ^ 53" .
  have "\<bar>x\<bar> / 2 ^ 53 \<le> \<bar>x\<bar>" by (simp add: field_simps)
  have "\<bar>y\<bar> \<le> \<bar>x\<bar> + \<bar>x\<bar> / 2 ^ 53" using err by linarith
  also have "\<dots> \<le> 2 ^ 1023 + 2 ^ 1023 / 2 ^ 53"
    using assms(2) by (intro add_mono divide_right_mono) simp_all
  also have "\<dots> < overflow_threshold"
    by (simp add: overflow_threshold_def)
  finally have "\<not> overflow_threshold \<le> \<bar>y\<bar>" by simp
  then have "fl x = Num y"
    using nz by (simp add: fl_def Let_def b e_def[symmetric] y_def[symmetric])
  with err that show thesis by blast
qed

lemma fl_pos:
  assumes "2 powi (- 1075) < x"
  shows "fl x = PosInf \<or> (\<exists>y. fl x = Num y \<and> 2 powi (- 1074) \<le> y)"
proof -
  have "0 < (2::real) powi (- 1075)" by (rule zero_less_power_int) simp
  with assms have pos: "0 < x" by linarith
  then have nz: "x \<noteq> 0" by simp
  from binade_cases[OF nz] obtain E where E: "2 powi E \<le> \<bar>x\<bar>" "\<bar>x\<bar> < 2 powi (E + 1)"
     "binade x = max E (- 1022)" by blast
  define e where "e = binade x - 52"
  have pe: "0 < (2::real) powi e" by (rule zero_less_power_int) simp
  have elow: "- 1074 \<le> e" by (simp add: e_def E(3))
  have "1 \<le> round_half_even (x / 2 powi e)"
  proof (cases "- 1022 \<le> E")
    case True
    then have "e = E - 52" by (simp add: e_def E(3))
    then have "2 powi E = (2::real) ^ 52 * 2 powi e"
      by (simp add: power_int_diff)
    with E(1) pos have "2 ^ 52 * 2 powi e \<le> x" by simp
    then have "2 ^ 52 \<le> x / 2 powi e" using pe by (simp add: field_simps)
    moreover have "1 / 2 < (2::real) ^ 52" by simp
    ultimately have "1 / 2 < x / 2 powi e" by linarith
    then show ?thesis by (rule rhe_pos)
  next
    case False
    then have "e = - 1074" by (simp add: e_def E(3))
    then have "2 powi (- 1075) = (2::real) powi e / 2"
      by (simp add: power_int_minus field_simps)
    with assms have "2 powi e / 2 < x" by simp
    then have "1 / 2 < x / 2 powi e" using pe by (simp add: field_simps)
    then show ?thesis by (rule rhe_pos)
  qed
  then have "1 \<le> real_of_int (round_half_even (x / 2 powi e))" by linarith
  then have "1 * 2 powi e \<le> real_of_int (round_half_even (x / 2 powi e)) * 2 powi e"
    using pe by (intro mult_right_mono) simp_all
  moreover have "(2::real) powi (- 1074) \<le> 2 powi e"
    using elow by (intro power_int_increasing) simp_all
  ultimately have "2 powi (- 1074) \<le> real_of_int (round_half_even (x / 2 powi e)) * 2 powi e"
    by linarith
  then show ?thesis
    using nz pos by (simp add: fl_def Let_def e_def[symmetric])
qed

lemma fl_overflow:
  assumes "overflow_threshold \<le> \<bar>x\<bar>"
  shows "fl x = (if 0 < x then PosInf else NegInf)"
proof -
  have th: "overflow_threshold = 2 powi 1024" by (simp add: overflow_threshold_def)
  have "0 < overflow_threshold" unfolding th by (rule zero_less_power_int) simp
  with assms have nz: "x \<noteq> 0" by auto
  from binade_cases[OF nz] obtain E where E: "2 powi E \<le> \<bar>x\<bar>" "\<bar>x\<bar> < 2 powi (E + 1)"
     "binade x = max E (- 1022)" by blast
  from assms E(2) have "(2::real) powi 1024 < 2 powi (E + 1)" unfolding th by linarith
  then have big: "1024 < E + 1" by (rule powi2_less_cancel)
  define e where "e = binade x - 52"
  have e: "e = E - 52" using big by (simp add: e_def E(3))
  have pe: "0 < (2::real) powi e" by (rule zero_less_power_int) simp
  have split: "2 powi E = (2::real) ^ 52 * 2 powi e"
    by (simp add: e power_int_diff)
  have "overflow_threshold \<le> 2 powi E"
    unfolding th using big by (intro power_int_increasing) simp_all
  then have tE: "overflow_threshold \<le> 2 ^ 52 * 2 powi e" by (simp add: split)
  define r where "r = round_half_even (x / 2 powi e)"
  have "overflow_threshold \<le> \<bar>real_of_int r * 2 powi e\<bar>"
  proof (cases "0 < x")
    case True
    with E(1) have "2 ^ 52 * 2 powi e \<le> x" by (simp add: split)
    then have "real_of_int (2 ^ 52) \<le> x / 2 powi e" using pe by (simp add: field_simps)
    then have "2 ^ 52 \<le> r" unfolding r_def by (rule rhe_ge)
    then have "real_of_int (2 ^ 52) \<le> real_of_int r" by (simp only: of_int_le_iff)
    then have "2 ^ 52 * 2 powi e \<le> real_of_int r * 2 powi e"
      using pe by (intro mult_right_mono) simp_all
    with tE show ?thesis by linarith
  next
    case False
    with nz E(1) have "2 ^ 52 * 2 powi e \<le> - x" by (simp add: split)
    then have "x / 2 powi e \<le> real_of_int (- (2 ^ 52))" using pe by (simp add: field_simps)
    then have "r \<le> - (2 ^ 52)" unfolding r_def by (rule rhe_le)
    then have "real_of_int r \<le> real_of_int (- (2 ^ 52))" by (simp only: of_int_le_iff)
    then have "real_of_int r * 2 powi e \<le> - (2 ^ 52) * 2 powi e"
      using pe by (intro mult_right_mono) simp_all
    with tE show ?thesis by linarith
  qed
  then show ?thesis
    using nz by (simp add: fl_def Let_def e_def[symmetric] r_def[symmetric])
qed

lemma fl_output:
  assumes "fl x = Num y"
  shows "y = 0 \<or> 2 powi (- 1074) \<le> \<bar>y\<bar>"
proof (cases "x = 0")
  case True
  with assms show ?thesis by (simp add: fl_def)
next
  case False
  define e where "e = binade x - 52"
  define r where "r = round_half_even (x / 2 powi e)"
  have pe: "0 < (2::real) powi e" by (rule zero_less_power_int) simp
  have "- 1074 \<le> e" by (simp add: e_def binade_def)
  then have low: "(2::real) powi (- 1074) \<le> 2 powi e"
    by (intro power_int_increasing) simp_all
  from assms False have y: "y = real_of_int r * 2 powi e"
    by (simp add: fl_def Let_def e_def[symmetric] r_def[symmetric] split: if_splits)
  show ?thesis
  proof (cases "r = 0")
    case True
    then show ?thesis by (simp add: y)
  next
    case False
    then have "1 \<le> \<bar>r\<bar>" by linarith
    then have "1 \<le> \<bar>real_of_int r\<bar>" by linarith
    then have "1 * 2 powi e \<le> \<bar>real_of_int r\<bar> * 2 powi e"
      using pe by (intro mult_right_mono) simp_all
    then have "2 powi e \<le> \<bar>y\<bar>" using pe by (simp add: y abs_mult)
    with low show ?thesis by linarith
  qed
qed

lemma fl_nonneg:
  assumes "0 \<le> x"
  shows "fl x \<noteq> NegInf" "fl x = Num y \<Longrightarrow> 0 \<le> y"
proof -
  show "fl x \<noteq> NegInf"
    using assms by (auto simp: fl_def Let_def)
  assume a: "fl x = Num y"
  show "0 \<le> y"
  proof (cases "x = 0")
    case True
    with a show ?thesis by (simp add: fl_def)
  next
    case False
    define e where "e = binade x - 52"
    have pe: "0 < (2::real) powi e" by (rule zero_less_power_int) simp
    have "real_of_int 0 \<le> x / 2 powi e" using assms pe by simp
    then have "0 \<le> round_half_even (x / 2 powi e)" by (rule rhe_ge)
    then have "0 \<le> real_of_int (round_half_even (x / 2 powi e)) * 2 powi e"
      using pe by simp
    with a False show ?thesis
      by (simp add: fl_def Let_def e_def[symmetric] split: if_splits)
  qed
qed


lemma fl_numeral: "numeral w \<le> (2::int) ^ 53 \<Longrightarrow> fl (numeral w) = Num (numeral w)"
  using fl_int[of "numeral w"] by simp

lemma fl_neg_numeral: "numeral w \<le> (2::int) ^ 53 \<Longrightarrow> fl (- numeral w) = Num (- numeral w)"
  using fl_int[of "- numeral w"] by simp

lemma fl_one: "fl 1 = Num 1"
  using fl_int[of 1] by simp

lemma fl_neg_one: "fl (- 1) = Num (- 1)"
  using fl_int[of "- 1"] by simp

lemma fl_zero: "fl 0 = Num 0"
  by (simp add: fl_def)

lemmas fl_small = fl_zero fl_one fl_neg_one fl_numeral fl_neg_numeral

lemma double_dyadic:
  assumes "\<bar>m\<bar> < 2 ^ 53" "- 1074 \<le> p" "p \<le> 971"
  shows "double (of_int m * 2 powi p)"
proof -
  have pp: "0 < (2::real) powi p" by (rule zero_less_power_int) simp
  have "real_of_int \<bar>m\<bar> < real_of_int (2 ^ 53)"
    using assms(1) by (simp only: of_int_less_iff)
  then have lt: "\<bar>real_of_int m\<bar> < 2 ^ 53" by simp
  have "(2::real) powi p \<le> 2 powi 971"
    using assms(3) by (intro power_int_increasing) simp_all
  then have "\<bar>real_of_int m\<bar> * 2 powi p \<le> \<bar>real_of_int m\<bar> * 2 powi 971"
    by (intro mult_left_mono) simp_all
  also have "\<dots> \<le> 2 ^ 53 * 2 powi 971"
    using lt by (intro mult_right_mono) simp_all
  finally have le: "\<bar>real_of_int m\<bar> * 2 powi p \<le> 2 ^ 53 * 2 powi 971" .
  have "\<bar>real_of_int m\<bar> * 2 powi p < 2 ^ 53 * 2 powi p"
    using lt pp by (intro mult_strict_right_mono)
  also have "\<dots> \<le> 2 ^ 53 * 2 powi 971"
    using assms(3) by (intro mult_left_mono power_int_increasing) simp_all
  also have "\<dots> = overflow_threshold"
    by (simp add: overflow_threshold_def)
  finally have "\<bar>real_of_int m * 2 powi p\<bar> < overflow_threshold"
    by (simp add: abs_mult)
  with assms show ?thesis unfolding double_def by blast
qed

lemma fl_finite: "fl x = Num y \<Longrightarrow> \<bar>y\<bar> < overflow_threshold"
  by (auto simp: fl_def Let_def split: if_splits simp: overflow_threshold_def)

lemma sqrt_bounds:
  assumes "2 powi (2 * a) \<le> v" "v \<le> 2 ^ (2 * b)"
  shows "2 powi a \<le> sqrt v" "sqrt v \<le> 2 ^ b"
proof -
  have "(2 powi a)\<^sup>2 = (2::real) powi (2 * a)"
    by (simp add: power2_eq_square flip: power_int_add)
  then show "2 powi a \<le> sqrt v"
    using assms(1) by (intro real_le_rsqrt) simp
  have "0 \<le> v" using assms(1) zero_less_power_int[of "2::real" "2 * a"] by linarith
  have "(2::real) ^ (2 * b) = (2 ^ b)\<^sup>2"
    by (simp add: power_mult power2_eq_square flip: power_add mult_2)
  then show "sqrt v \<le> 2 ^ b"
    using assms(2) by (intro real_le_lsqrt) simp_all
qed

lemma rel_bounds:
  assumes "\<bar>y - x\<bar> \<le> \<bar>x\<bar> / 2 ^ 53" "0 < (x::real)"
  shows "x * (1 - 1 / 2 ^ 53) \<le> y" "y \<le> x * (1 + 1 / 2 ^ 53)"
proof -
  have e: "x * (1 - 1 / 2 ^ 53) = x - x / 2 ^ 53" "x * (1 + 1 / 2 ^ 53) = x + x / 2 ^ 53"
    by (simp_all add: algebra_simps)
  from assms have "y - x \<le> x / 2 ^ 53" "x - y \<le> x / 2 ^ 53" by linarith+
  then show "x * (1 - 1 / 2 ^ 53) \<le> y" "y \<le> x * (1 + 1 / 2 ^ 53)"
    unfolding e by linarith+
qed

section \<open>Properties of the average\<close>





section \<open>Properties of the correlation\<close>

text \<open>
  C6: when either series has fewer than 2 points, \<open>calculateCorrelation\<close> returns the
  number 0 (line 95), whatever the other series is.
\<close>

theorem correlate_short:
  "length prices1 < 2 \<or> length prices2 < 2 \<Longrightarrow> calculateCorrelation prices1 prices2 = Num 0"
  by (auto simp add: calculateCorrelation_def)

theorem correlate_short_witness:
  "length [Num 1] < 2 \<and> calculateCorrelation [Num 1] [Num 1, Num 2, Num 3] = Num 0
   \<and> calculateCorrelation [Num 1, Num 2, Num 3] [] = Num 0"
  using correlate_short [of "[Num 1]" "[Num 1, Num 2, Num 3]"] correlate_short [of "[Num 1, Num 2, Num 3]" "[]"]
  by simp

text \<open>Exchanging the two series exchanges the two standard deviations and keeps the covariance.\<close>

lemma fmul_commute: "fmul a b = fmul b a"
  by (cases a; cases b) (simp_all add: mult.commute)

lemma loop_swap:
  "foldl (correlation_step prices1 prices2 mean1 mean2) (c, s1, s2) ixs = (c', s1', s2') \<Longrightarrow>
   foldl (correlation_step prices2 prices1 mean2 mean1) (c, s2, s1) ixs = (c', s2', s1')"
proof (induction ixs arbitrary: c s1 s2)
  case Nil
  then show ?case by simp
next
  case (Cons i ixs)
  then show ?case by (simp add: Let_def fmul_commute)
qed

lemma moments_swap:
  assumes "length prices1 = length prices2" "moments prices1 prices2 = (c, s1, s2)"
  shows "moments prices2 prices1 = (c, s2, s1)"
proof -
  let ?n = "length prices1"
  obtain c' s1' s2' where l: "foldl (correlation_step prices1 prices2 (series_mean prices1 ?n)
       (series_mean prices2 ?n)) (Num 0, Num 0, Num 0) [0..<?n] = (c', s1', s2')"
    using prod_cases3 by blast
  from loop_swap[OF l] assms l show ?thesis
    by (simp add: moments_def Let_def)
qed

text \<open>
  C10: on two series of the same length, \<open>calculateCorrelation\<close> does not depend on the
  order of its arguments.
\<close>

theorem correlate_symmetric:
  assumes "length prices1 = length prices2"
  shows "calculateCorrelation prices1 prices2 = calculateCorrelation prices2 prices1"
proof -
  obtain c s1 s2 where m: "moments prices1 prices2 = (c, s1, s2)"
    using prod_cases3 by blast
  from moments_swap[OF assms m] m assms show ?thesis
    by (auto simp: calculateCorrelation_def zero_stddev_guard_def covariance_def divisor_def
          fmul_commute)
qed

theorem correlate_symmetric_witness:
  "length [Num 1, Num 2, Num 4] = length [Num 3, Num 1, Num 2]
   \<and> calculateCorrelation [Num 1, Num 2, Num 4] [Num 3, Num 1, Num 2] =
     calculateCorrelation [Num 3, Num 1, Num 2] [Num 1, Num 2, Num 4]"
  using correlate_symmetric [of "[Num 1, Num 2, Num 4]" "[Num 3, Num 1, Num 2]"] by simp

text \<open>
  A series against itself: the three accumulators of the loop stay equal, so the covariance
  is the variance \<open>v\<close> and both standard deviations are its rounded square root \<open>s\<close>.
  Three roundings (the root, the product \<open>s * s\<close>, the quotient) separate the result from 1.
\<close>

lemma loop_self:
  "\<exists>c'. foldl (correlation_step prices prices m m) (c, c, c) ixs = (c', c', c')"
  by (induction ixs arbitrary: c) (simp_all add: Let_def)

lemma moments_self: "\<exists>V. moments prices prices = (V, fsqrt V, fsqrt V)"
proof -
  obtain c' where "foldl (correlation_step prices prices (series_mean prices (length prices))
      (series_mean prices (length prices))) (Num 0, Num 0, Num 0) [0..<length prices] = (c', c', c')"
    using loop_self by blast
  then show ?thesis by (simp add: moments_def Let_def)
qed

lemma quotient_near_one:
  assumes "2 powi (- 1000) \<le> v" "v \<le> 2 ^ 1000"
  shows "\<exists>s. fsqrt (Num v) = Num s \<and> 0 < s
           \<and> (\<exists>r. fdiv (Num v) (fmul (Num s) (Num s)) = Num r \<and> \<bar>r - 1\<bar> \<le> 1 / 2 ^ 50)"
proof -
  define u :: real where "u = 1 / 2 ^ 53"
  have u: "0 < u" "u < 1" by (simp_all add: u_def)
  have vpos: "0 < v" using assms(1) zero_less_power_int[of "2::real" "- 1000"] by linarith
  define a where "a = sqrt v"
  have apos: "0 < a" using vpos by (simp add: a_def)
  have a2: "a * a = v" using vpos by (simp add: a_def)
  have ab: "2 powi (- 500) \<le> a" "a \<le> 2 ^ 500"
    using sqrt_bounds[of "- 500" v 500] assms by (simp_all add: a_def)
  \<comment> \<open>the square root\<close>
  have "2 powi (- 1022) \<le> \<bar>a\<bar>" "\<bar>a\<bar> \<le> 2 ^ 1023"
  proof -
    have "(2::real) powi (- 1022) \<le> 2 powi (- 500)" by (intro power_int_increasing) simp_all
    with ab(1) apos show "2 powi (- 1022) \<le> \<bar>a\<bar>" by simp
    have "(2::real) ^ 500 \<le> 2 ^ 1023" by (intro power_increasing) simp_all
    with ab(2) apos show "\<bar>a\<bar> \<le> 2 ^ 1023" by simp
  qed
  from fl_rel[OF this] obtain s where s: "fl a = Num s" "\<bar>s - a\<bar> \<le> \<bar>a\<bar> / 2 ^ 53" by blast
  have sb: "a * (1 - u) \<le> s" "s \<le> a * (1 + u)"
    using rel_bounds[OF s(2) apos] by (simp_all add: u_def)
  have "0 < a * (1 - u)" using apos u by simp
  with sb(1) have spos: "0 < s" by linarith
  have fs: "fsqrt (Num v) = Num s" using vpos s(1) by (simp add: a_def)
  \<comment> \<open>the product\<close>
  have ss: "v * ((1 - u) * (1 - u)) \<le> s * s" "s * s \<le> v * ((1 + u) * (1 + u))"
  proof -
    have "(a * (1 - u)) * (a * (1 - u)) \<le> s * s"
      using sb(1) apos spos u by (intro mult_mono) simp_all
    then show "v * ((1 - u) * (1 - u)) \<le> s * s" by (simp add: a2[symmetric] algebra_simps)
    have "s * s \<le> (a * (1 + u)) * (a * (1 + u))"
      using sb(2) spos by (intro mult_mono) simp_all
    then show "s * s \<le> v * ((1 + u) * (1 + u))" by (simp add: a2[symmetric] algebra_simps)
  qed
  have c1: "(1::real) / 2 \<le> (1 - u) * (1 - u)" "(1 + u) * (1 + u) \<le> (2::real)"
    by (simp_all add: u_def)
  have "2 powi (- 1022) \<le> \<bar>s * s\<bar>" "\<bar>s * s\<bar> \<le> 2 ^ 1023"
  proof -
    have "(2::real) powi (- 1022) \<le> 2 powi (- 1000) * (1 / 2)"
      by (simp add: power_int_minus field_simps)
    also have "\<dots> \<le> v * ((1 - u) * (1 - u))"
      using assms(1) c1(1) vpos by (intro mult_mono) simp_all
    finally show "2 powi (- 1022) \<le> \<bar>s * s\<bar>" using ss(1) by simp
    have "v * ((1 + u) * (1 + u)) \<le> 2 ^ 1000 * 2"
      using assms(2) c1(2) u by (intro mult_mono) simp_all
    with ss(2) have "s * s \<le> 2 ^ 1000 * 2" by linarith
    also have "\<dots> \<le> (2::real) ^ 1023" by simp
    finally show "\<bar>s * s\<bar> \<le> 2 ^ 1023" by simp
  qed
  from fl_rel[OF this] obtain p where p: "fl (s * s) = Num p" "\<bar>p - s * s\<bar> \<le> \<bar>s * s\<bar> / 2 ^ 53"
    by blast
  have sspos: "0 < s * s" using spos by simp
  have pb: "s * s * (1 - u) \<le> p" "p \<le> s * s * (1 + u)"
    using rel_bounds[OF p(2) sspos] by (simp_all add: u_def)
  have pv: "v * ((1 - u) * (1 - u) * (1 - u)) \<le> p" "p \<le> v * ((1 + u) * (1 + u) * (1 + u))"
  proof -
    have "v * ((1 - u) * (1 - u)) * (1 - u) \<le> s * s * (1 - u)"
      using ss(1) u by (intro mult_right_mono) simp_all
    with pb(1) show "v * ((1 - u) * (1 - u) * (1 - u)) \<le> p" by (simp add: mult.assoc)
    have "s * s * (1 + u) \<le> v * ((1 + u) * (1 + u)) * (1 + u)"
      using ss(2) u by (intro mult_right_mono) simp_all
    with pb(2) show "p \<le> v * ((1 + u) * (1 + u) * (1 + u))" by (simp add: mult.assoc)
  qed
  define lo where "lo = (1 - u) * (1 - u) * (1 - u)"
  define hi where "hi = (1 + u) * (1 + u) * (1 + u)"
  have lohi: "0 < lo" "0 < hi" "1 / 2 \<le> lo" "hi \<le> 2"
    by (simp_all add: lo_def hi_def u_def)
  have "0 < v * lo" using vpos lohi(1) by simp
  with pv(1) have ppos: "0 < p" by (simp add: lo_def)
  \<comment> \<open>the quotient\<close>
  have qb: "1 / hi \<le> v / p" "v / p \<le> 1 / lo"
  proof -
    have "p \<le> v * hi" using pv(2) by (simp add: hi_def)
    then show "1 / hi \<le> v / p" using ppos lohi(2) vpos by (simp add: field_simps)
    have "v * lo \<le> p" using pv(1) by (simp add: lo_def)
    then show "v / p \<le> 1 / lo" using ppos lohi(1) vpos by (simp add: field_simps)
  qed
  have qpos: "0 < v / p" using vpos ppos by simp
  have "2 powi (- 1022) \<le> \<bar>v / p\<bar>" "\<bar>v / p\<bar> \<le> 2 ^ 1023"
  proof -
    have "1 / 2 \<le> 1 / hi" using lohi(2,4) by (simp add: field_simps)
    moreover have "(2::real) powi (- 1022) \<le> 1 / 2" by (simp add: power_int_minus field_simps)
    ultimately show "2 powi (- 1022) \<le> \<bar>v / p\<bar>" using qb(1) qpos by linarith
    have "1 / lo \<le> 2" using lohi(1,3) by (simp add: field_simps)
    moreover have "(2::real) \<le> 2 ^ 1023" by simp
    ultimately show "\<bar>v / p\<bar> \<le> 2 ^ 1023" using qb(2) qpos by linarith
  qed
  from fl_rel[OF this] obtain r where r: "fl (v / p) = Num r" "\<bar>r - v / p\<bar> \<le> \<bar>v / p\<bar> / 2 ^ 53"
    by blast
  have rb: "v / p * (1 - u) \<le> r" "r \<le> v / p * (1 + u)"
    using rel_bounds[OF r(2) qpos] by (simp_all add: u_def)
  have "1 / hi * (1 - u) \<le> v / p * (1 - u)"
    using qb(1) u by (intro mult_right_mono) simp_all
  moreover have "1 - 1 / 2 ^ 50 \<le> 1 / hi * (1 - u)"
    by (simp add: hi_def u_def field_simps)
  moreover have "v / p * (1 + u) \<le> 1 / lo * (1 + u)"
    using qb(2) u by (intro mult_right_mono) simp_all
  moreover have "1 / lo * (1 + u) \<le> 1 + 1 / 2 ^ 50"
    by (simp add: lo_def u_def field_simps)
  ultimately have "\<bar>r - 1\<bar> \<le> 1 / 2 ^ 50" using rb by linarith
  moreover have "fdiv (Num v) (fmul (Num s) (Num s)) = Num r"
    using p(1) r(1) ppos by simp
  ultimately show ?thesis using fs spos by blast
qed

lemma self_correlation_near_one:
  assumes "2 \<le> length prices" "covariance prices prices = Num v"
    "2 powi (- 1000) \<le> v" "v \<le> 2 ^ 1000"
  shows "\<exists>r. calculateCorrelation prices prices = Num r \<and> \<bar>r - 1\<bar> \<le> 1 / 2 ^ 50"
proof -
  from moments_self obtain V where m: "moments prices prices = (V, fsqrt V, fsqrt V)" by blast
  with assms(2) have V: "V = Num v" by (simp add: covariance_def)
  from quotient_near_one[OF assms(3,4)] obtain s r where
    s: "fsqrt (Num v) = Num s" "0 < s" and
    r: "fdiv (Num v) (fmul (Num s) (Num s)) = Num r" "\<bar>r - 1\<bar> \<le> 1 / 2 ^ 50"
    by blast
  have "calculateCorrelation prices prices = Num r"
    using assms(1) m s r(1)
    by (simp add: calculateCorrelation_def zero_stddev_guard_def covariance_def divisor_def V)
  with r(2) show ?thesis by blast
qed

text \<open>
  C8, as amended: for every series of at least 2 points whose computed sample variance (the
  value of \<open>cov\<close> after line 114, which for a series against itself is the variance) is
  a finite number between \<open>2 powi (-1000)\<close> and \<open>2 ^ 1000\<close>, \<open>calculateCorrelation\<close> of the
  series with itself returns a number within \<open>2 powi (-50)\<close> of 1.
\<close>

theorem correlate_self:
  assumes "2 \<le> length prices" "covariance prices prices = Num v"
    "2 powi (- 1000) \<le> v" "v \<le> 2 ^ 1000"
  shows "\<exists>r. calculateCorrelation prices prices = Num r \<and> \<bar>r - 1\<bar> \<le> 1 / 2 ^ 50"
  using assms by (rule self_correlation_near_one)

theorem correlate_self_witness:
  "2 \<le> length [Num 1, Num 2, Num 3]
   \<and> covariance [Num 1, Num 2, Num 3] [Num 1, Num 2, Num 3] = Num 1
   \<and> 2 powi (- 1000) \<le> (1::real) \<and> (1::real) \<le> 2 ^ 1000
   \<and> (\<exists>r. calculateCorrelation [Num 1, Num 2, Num 3] [Num 1, Num 2, Num 3] = Num r
          \<and> \<bar>r - 1\<bar> \<le> 1 / 2 ^ 50)"
proof -
  have c: "covariance [Num 1, Num 2, Num 3] [Num 1, Num 2, Num 3] = Num 1"
    by (simp add: covariance_def moments_def series_mean_def Let_def upt_rec at_index_def
        fsub_def fl_small)
  have lo: "2 powi (- 1000) \<le> (1::real)"
    by (simp add: power_int_minus field_simps)
  have hi: "(1::real) \<le> 2 ^ 1000" by simp
  from correlate_self [OF _ c lo hi] c lo hi show ?thesis by simp
qed

text \<open>
  The claim C8 as stated, for every non-constant series, fails in float64: for the series
  \<open>2 ^ 600, - 2 ^ 600\<close> the squares of line 110 overflow to Infinity, and the result is
  \<open>Infinity / (Infinity * Infinity)\<close>, which is NaN.
\<close>

theorem self_correlation_overflow_counterexample:
  "2 \<le> length [Num (2 ^ 600), Num (- (2 ^ 600))]
   \<and> \<not> is_constant [Num (2 ^ 600), Num (- (2 ^ 600))]
   \<and> calculateCorrelation [Num (2 ^ 600), Num (- (2 ^ 600))] [Num (2 ^ 600), Num (- (2 ^ 600))] = NaN"
proof -
  define b :: real where "b = 2 ^ 600"
  have bpos: "0 < b" by (simp add: b_def)
  have "b = real_of_int 1 * 2 powi 600" by (simp add: b_def)
  then have db: "double b" using double_dyadic[of 1 600] by simp
  have "- b = real_of_int (- 1) * 2 powi 600" by (simp add: b_def)
  then have dnb: "double (- b)" using double_dyadic[of "- 1" 600] by simp
  have f: "fl b = Num b" "fl (- b) = Num (- b)"
    using db dnb by (simp_all add: fl_double)
  have "overflow_threshold \<le> \<bar>b * b\<bar>"
    by (simp add: b_def overflow_threshold_def flip: power_add)
  then have sq: "fl (b * b) = PosInf" using bpos by (simp add: fl_overflow)
  have nc: "\<not> is_constant [Num b, Num (- b)]"
    using bpos by (simp add: is_constant_def)
  have "calculateCorrelation [Num b, Num (- b)] [Num b, Num (- b)] = NaN"
    using f sq bpos
    by (simp add: calculateCorrelation_def zero_stddev_guard_def divisor_def
        covariance_def moments_def series_mean_def Let_def upt_rec at_index_def
        fsub_def fl_small)
  with nc show ?thesis unfolding b_def by simp
qed

text \<open>
  A constant series whose computed mean is its value has all differences of line 107 equal
  to zero, and so a standard deviation of exactly zero.
\<close>

lemma is_constant_iff: "is_constant xs \<longleftrightarrow> (\<forall>x\<in>set xs. \<forall>y\<in>set xs. x = y)"
proof (cases xs)
  case Nil
  then show ?thesis by (simp add: is_constant_def)
next
  case (Cons a rest)
  have "(\<forall>y\<in>set rest. y = a) \<longleftrightarrow>
        (\<forall>x\<in>insert a (set rest). \<forall>y\<in>insert a (set rest). x = y)"
    by (simp add: ball_simps) metis
  then show ?thesis using Cons by (simp add: is_constant_def list_all_iff)
qed

lemma step_stddev1:
  "fst (snd (correlation_step prices1 prices2 mean1 mean2 acc i)) =
     fadd (fst (snd acc)) (fmul (fsub (at_index prices1 i) mean1) (fsub (at_index prices1 i) mean1))"
  by (cases acc) (simp add: Let_def)

lemma loop_stddev1_zero:
  assumes "\<forall>x\<in>set prices1. x = Num c" "mean1 = Num c" "k \<le> length prices1"
    "fst (snd acc) = Num 0"
  shows "fst (snd (foldl (correlation_step prices1 prices2 mean1 mean2) acc [0..<k])) = Num 0"
  using assms(3)
proof (induction k)
  case 0
  then show ?case using assms(4) by simp
next
  case (Suc k)
  then have "at_index prices1 k = Num c"
    using assms(1) by (simp add: at_index_def)
  with Suc show ?case
    by (simp add: step_stddev1 assms(2) fsub_def fl_zero)
qed

lemma moments_constant_first:
  assumes "2 \<le> length prices1" "\<forall>x\<in>set prices1. x = Num c"
    "series_mean prices1 (length prices1) = Num c"
  shows "fst (snd (moments prices1 prices2)) = Num 0"
proof -
  let ?n = "length prices1"
  define acc where "acc = foldl (correlation_step prices1 prices2 (series_mean prices1 ?n)
       (series_mean prices2 ?n)) (Num 0, Num 0, Num 0) [0..<?n]"
  have "fst (snd acc) = Num 0"
    unfolding acc_def by (rule loop_stddev1_zero[OF assms(2,3)]) simp_all
  moreover have "real ?n - 1 \<noteq> 0" using assms(1) by simp
  ultimately show ?thesis
    by (cases acc) (simp add: moments_def Let_def acc_def[symmetric] fl_zero)
qed

lemma constant_values:
  assumes "is_constant prices" "hd prices = Num c" "prices \<noteq> []"
  shows "\<forall>x\<in>set prices. x = Num c"
  using assms by (cases prices) (auto simp: is_constant_def list_all_iff)

text \<open>
  A standard deviation of line 115 or 116 that is a positive number is at least about
  \<open>2 powi (-537)\<close>, the square root of the smallest positive float64 value; the product of
  two of them does not round to zero.
\<close>

lemma fsqrt_of_quotient:
  assumes "0 < b"
  shows "fsqrt (fdiv acc (Num b)) = NaN \<or> fsqrt (fdiv acc (Num b)) = PosInf
       \<or> fsqrt (fdiv acc (Num b)) = Num 0
       \<or> (\<exists>s. fsqrt (fdiv acc (Num b)) = Num s \<and> 2 powi (- 537) * (1 - 1 / 2 ^ 53) \<le> s)"
proof (cases acc)
  case (Num a)
  show ?thesis
  proof (cases "fl (a / b)")
    case (Num v)
    with \<open>acc = Num a\<close> assms have V: "fdiv acc (Num b) = Num v" by simp
    consider "v < 0" | "v = 0" | "0 < v" by linarith
    then show ?thesis
    proof cases
      case 1
      then show ?thesis by (simp add: V)
    next
      case 2
      then show ?thesis by (simp add: V fl_zero)
    next
      case 3
      with fl_output[OF Num] have low: "2 powi (- 1074) \<le> v" by auto
      from fl_finite[OF Num] 3 have "v \<le> 2 ^ 1024" by (simp add: overflow_threshold_def)
      with low have sb: "2 powi (- 537) \<le> sqrt v" "sqrt v \<le> 2 ^ 512"
        using sqrt_bounds[of "- 537" v 512] by simp_all
      have spos: "0 < sqrt v" using 3 by simp
      have "2 powi (- 1022) \<le> \<bar>sqrt v\<bar>" "\<bar>sqrt v\<bar> \<le> 2 ^ 1023"
      proof -
        have "(2::real) powi (- 1022) \<le> 2 powi (- 537)" by (intro power_int_increasing) simp_all
        with sb(1) spos show "2 powi (- 1022) \<le> \<bar>sqrt v\<bar>" by simp
        have "(2::real) ^ 512 \<le> 2 ^ 1023" by (intro power_increasing) simp_all
        with sb(2) spos show "\<bar>sqrt v\<bar> \<le> 2 ^ 1023" by simp
      qed
      from fl_rel[OF this] obtain s where s: "fl (sqrt v) = Num s" "\<bar>s - sqrt v\<bar> \<le> \<bar>sqrt v\<bar> / 2 ^ 53"
        by blast
      from rel_bounds(1)[OF s(2) spos] have "sqrt v * (1 - 1 / 2 ^ 53) \<le> s" .
      moreover have "2 powi (- 537) * (1 - 1 / 2 ^ 53) \<le> sqrt v * (1 - 1 / 2 ^ 53)"
        using sb(1) by (intro mult_right_mono) simp_all
      ultimately have "2 powi (- 537) * (1 - 1 / 2 ^ 53) \<le> s" by linarith
      then show ?thesis using 3 s(1) by (simp add: V)
    qed
  qed (use \<open>acc = Num a\<close> assms in simp_all)
qed (use assms in simp_all)

lemma fmul_nonzero:
  assumes "x = NaN \<or> x = PosInf \<or> (\<exists>s. x = Num s \<and> 2 powi (- 537) * (1 - 1 / 2 ^ 53) \<le> s)"
    and "y = NaN \<or> y = PosInf \<or> (\<exists>s. y = Num s \<and> 2 powi (- 537) * (1 - 1 / 2 ^ 53) \<le> s)"
  shows "fmul x y \<noteq> Num 0"
proof -
  have low: "0 < (2::real) powi (- 537) * (1 - 1 / 2 ^ 53)"
    by (intro mult_pos_pos zero_less_power_int) simp_all
  have both: "fmul (Num s) (Num t) \<noteq> Num 0"
    if "2 powi (- 537) * (1 - 1 / 2 ^ 53) \<le> s" "2 powi (- 537) * (1 - 1 / 2 ^ 53) \<le> t" for s t
  proof -
    have "(2 powi (- 537) * (1 - 1 / 2 ^ 53)) * (2 powi (- 537) * (1 - 1 / 2 ^ 53)) \<le> s * t"
      using that low by (intro mult_mono) simp_all
    moreover have "(2 powi (- 537) * (1 - 1 / 2 ^ 53)) * (2 powi (- 537) * (1 - 1 / 2 ^ 53))
        = 2 powi (- 1074) * ((1 - 1 / 2 ^ 53) * (1 - 1 / 2 ^ 53 :: real))"
      by (simp add: power_int_minus flip: power_add)
    moreover have "2 powi (- 1075) < 2 powi (- 1074) * ((1 - 1 / 2 ^ 53) * (1 - 1 / 2 ^ 53 :: real))"
    proof -
      have "(1::real) / 2 < (1 - 1 / 2 ^ 53) * (1 - 1 / 2 ^ 53)" by simp
      then have "2 powi (- 1074) * (1 / 2) < 2 powi (- 1074) * ((1 - 1 / 2 ^ 53) * (1 - 1 / 2 ^ 53 :: real))"
        by (intro mult_strict_left_mono zero_less_power_int) simp_all
      moreover have "(2::real) powi (- 1075) = 2 powi (- 1074) * (1 / 2)"
        by (simp add: power_int_minus)
      ultimately show ?thesis by simp
    qed
    ultimately have "2 powi (- 1075) < s * t" by linarith
    from fl_pos[OF this] show ?thesis
      using zero_less_power_int[of "2::real" "- 1074"] by auto
  qed
  show ?thesis
    using assms low both by (elim disjE exE conjE) (auto simp: not_le)
qed

lemma moments_shape:
  assumes "2 \<le> length prices1"
  shows "\<exists>c a1 a2 b. 0 < b \<and>
     moments prices1 prices2 = (fdiv c (Num b), fsqrt (fdiv a1 (Num b)), fsqrt (fdiv a2 (Num b)))"
proof -
  let ?n = "length prices1"
  obtain c a1 a2 where "foldl (correlation_step prices1 prices2 (series_mean prices1 ?n)
       (series_mean prices2 ?n)) (Num 0, Num 0, Num 0) [0..<?n] = (c, a1, a2)"
    using prod_cases3 by blast
  then have "moments prices1 prices2 =
      (fdiv c (Num (real ?n - 1)), fsqrt (fdiv a1 (Num (real ?n - 1))),
       fsqrt (fdiv a2 (Num (real ?n - 1))))"
    by (simp add: moments_def Let_def)
  moreover have "0 < real ?n - 1" using assms by simp
  ultimately show ?thesis by blast
qed

text \<open>
  C7, as amended: for two series of the same length, at least 2, of which one is constant
  with a computed mean equal to its value (as for \<open>5, 5, 5\<close>), the computed standard
  deviation of that series is exactly zero, the test of line 118 holds and
  \<open>calculateCorrelation\<close> returns 0; whenever the test of line 118 holds the result is 0;
  and whenever it fails the divisor of line 119 is not zero, so that the division is never
  performed with a zero divisor.
\<close>

theorem correlate_constant:
  "(length prices1 = length prices2 \<and> 2 \<le> length prices1 \<and>
      ((is_constant prices1 \<and>
          (\<exists>c. hd prices1 = Num c \<and> series_mean prices1 (length prices1) = Num c))
       \<or> (is_constant prices2 \<and>
          (\<exists>c. hd prices2 = Num c \<and> series_mean prices2 (length prices2) = Num c)))
     \<longrightarrow> zero_stddev_guard prices1 prices2 \<and> calculateCorrelation prices1 prices2 = Num 0)
   \<and> (zero_stddev_guard prices1 prices2 \<longrightarrow> calculateCorrelation prices1 prices2 = Num 0)
   \<and> (2 \<le> length prices1 \<and> \<not> zero_stddev_guard prices1 prices2
        \<longrightarrow> divisor prices1 prices2 \<noteq> Num 0)"
proof (intro conjI impI)
  show g0: "calculateCorrelation prices1 prices2 = Num 0" if "zero_stddev_guard prices1 prices2"
    using that by (simp add: calculateCorrelation_def)
  {
    assume h: "length prices1 = length prices2 \<and> 2 \<le> length prices1 \<and>
      ((is_constant prices1 \<and>
          (\<exists>c. hd prices1 = Num c \<and> series_mean prices1 (length prices1) = Num c))
       \<or> (is_constant prices2 \<and>
          (\<exists>c. hd prices2 = Num c \<and> series_mean prices2 (length prices2) = Num c)))"
    then have len: "length prices1 = length prices2" and two: "2 \<le> length prices1"
      and two': "2 \<le> length prices2" by simp_all
    have ne: "prices1 \<noteq> []" "prices2 \<noteq> []" using two two' by auto
    obtain c s1 s2 where m: "moments prices1 prices2 = (c, s1, s2)"
      using prod_cases3 by blast
    from h have "s1 = Num 0 \<or> s2 = Num 0"
    proof (elim conjE disjE exE)
      fix v assume "is_constant prices1" "hd prices1 = Num v"
        "series_mean prices1 (length prices1) = Num v"
      with moments_constant_first[OF two constant_values[OF _ _ ne(1)], of v prices2] m
      show ?thesis by simp
    next
      fix v assume "is_constant prices2" "hd prices2 = Num v"
        "series_mean prices2 (length prices2) = Num v"
      with moments_constant_first[OF two' constant_values[OF _ _ ne(2)], of v prices1]
        moments_swap[OF len m]
      show ?thesis by simp
    qed
    then show g: "zero_stddev_guard prices1 prices2"
      by (simp add: zero_stddev_guard_def m)
    then show "calculateCorrelation prices1 prices2 = Num 0" by (rule g0)
  }
  assume n: "2 \<le> length prices1 \<and> \<not> zero_stddev_guard prices1 prices2"
  then obtain c a1 a2 b where b: "0 < b" and
    m: "moments prices1 prices2 = (fdiv c (Num b), fsqrt (fdiv a1 (Num b)), fsqrt (fdiv a2 (Num b)))"
    using moments_shape by blast
  from n have nz: "fsqrt (fdiv a1 (Num b)) \<noteq> Num 0" "fsqrt (fdiv a2 (Num b)) \<noteq> Num 0"
    by (simp_all add: zero_stddev_guard_def m)
  have "fmul (fsqrt (fdiv a1 (Num b))) (fsqrt (fdiv a2 (Num b))) \<noteq> Num 0"
    using fsqrt_of_quotient[OF b, of a1] fsqrt_of_quotient[OF b, of a2] nz
    by (intro fmul_nonzero) auto
  then show "divisor prices1 prices2 \<noteq> Num 0"
    by (simp add: divisor_def m)
qed

theorem correlate_constant_witness:
  "length [Num 5, Num 5, Num 5] = length [Num 1, Num 2, Num 4]
   \<and> is_constant [Num 5, Num 5, Num 5]
   \<and> series_mean [Num 5, Num 5, Num 5] 3 = Num 5
   \<and> zero_stddev_guard [Num 5, Num 5, Num 5] [Num 1, Num 2, Num 4]
   \<and> calculateCorrelation [Num 5, Num 5, Num 5] [Num 1, Num 2, Num 4] = Num 0
   \<and> \<not> zero_stddev_guard [Num 1, Num 2, Num 3] [Num 3, Num 2, Num 1]
   \<and> divisor [Num 1, Num 2, Num 3] [Num 3, Num 2, Num 1] \<noteq> Num 0"
proof -
  have c: "is_constant [Num 5, Num 5, Num 5]"
    by (simp add: is_constant_def)
  have m: "series_mean [Num 5, Num 5, Num 5] 3 = Num 5"
    by (simp add: series_mean_def fl_small)
  have m': "series_mean [Num 5, Num 5, Num 5] (length [Num 5, Num 5, Num 5]) = Num 5"
    using m by (simp add: numeral_3_eq_3)
  have n: "\<not> zero_stddev_guard [Num 1, Num 2, Num 3] [Num 3, Num 2, Num 1]"
    by (simp add: zero_stddev_guard_def moments_def series_mean_def at_index_def upt_rec Let_def
         fsub_def fl_small)
  show ?thesis
    using c m m' n correlate_constant [of "[Num 5, Num 5, Num 5]" "[Num 1, Num 2, Num 4]"]
      correlate_constant [of "[Num 1, Num 2, Num 3]" "[Num 3, Num 2, Num 1]"]
    by simp
qed

text \<open>
  The claim C7 as stated, for every constant series, fails in float64: for the series
  0.1, 0.1, 0.1 the sum of line 98 is rounded, the computed mean differs from 0.1 in the
  last bit, the computed standard deviation is not zero, and the correlation of the series
  with itself is about 1 and not 0.
\<close>

theorem inexact_mean_counterexample:
  "is_constant [Num (3602879701896397 / 2 ^ 55), Num (3602879701896397 / 2 ^ 55),
                Num (3602879701896397 / 2 ^ 55)]
   \<and> series_mean [Num (3602879701896397 / 2 ^ 55), Num (3602879701896397 / 2 ^ 55),
                Num (3602879701896397 / 2 ^ 55)] 3 = Num (7205759403792795 / 2 ^ 56)
   \<and> calculateCorrelation
       [Num (3602879701896397 / 2 ^ 55), Num (3602879701896397 / 2 ^ 55),
        Num (3602879701896397 / 2 ^ 55)]
       [Num (3602879701896397 / 2 ^ 55), Num (3602879701896397 / 2 ^ 55),
        Num (3602879701896397 / 2 ^ 55)] \<noteq> Num 0"
proof -
  let ?d = "3602879701896397 / 2 ^ 55 :: real"
  let ?xs = "[Num ?d, Num ?d, Num ?d]"
  have f1: "fl ?d = Num ?d"
    using fl_double[OF double_dyadic[of 3602879701896397 "- 55"]]
    by (simp add: power_int_minus field_simps)
  have f2: "fl (?d + ?d) = Num (3602879701896397 / 2 ^ 54)"
    using fl_double[OF double_dyadic[of 3602879701896397 "- 54"]]
    by (simp add: power_int_minus field_simps)
  have f3: "fl (3602879701896397 / 2 ^ 54 + ?d) = Num (5404319552844596 / 2 ^ 54)"
    using fl_in_binade[of "- 2" "3602879701896397 / 2 ^ 54 + ?d" "- 54"]
    by (simp add: power_int_minus round_half_even_def overflow_threshold_def)
  have f4: "fl (5404319552844596 / 2 ^ 54 / 3) = Num (7205759403792795 / 2 ^ 56)"
    using fl_in_binade[of "- 4" "5404319552844596 / 2 ^ 54 / 3" "- 56"]
    by (simp add: power_int_minus round_half_even_def overflow_threshold_def)
  have mean: "series_mean ?xs 3 = Num (7205759403792795 / 2 ^ 56)"
    using f1 f2 f3 f4 by (simp add: series_mean_def)
  have f5: "fl (?d - 7205759403792795 / 2 ^ 56) = Num (- 1 / 2 ^ 56)"
    using fl_double[OF double_dyadic[of "- 1" "- 56"]]
    by (simp add: power_int_minus field_simps)
  have f6: "fl (- 1 / 2 ^ 56 * (- 1 / 2 ^ 56)) = Num (1 / 2 ^ 112)"
    using fl_double[OF double_dyadic[of 1 "- 112"]]
    by (simp add: power_int_minus field_simps)
  have f7: "fl (1 / 2 ^ 112) = Num (1 / 2 ^ 112)"
    using fl_double[OF double_dyadic[of 1 "- 112"]]
    by (simp add: power_int_minus field_simps)
  have f8: "fl (1 / 2 ^ 112 + 1 / 2 ^ 112) = Num (1 / 2 ^ 111)"
    using fl_double[OF double_dyadic[of 1 "- 111"]]
    by (simp add: power_int_minus field_simps)
  have f9: "fl (1 / 2 ^ 111 + 1 / 2 ^ 112) = Num (3 / 2 ^ 112)"
    using fl_double[OF double_dyadic[of 3 "- 112"]]
    by (simp add: power_int_minus field_simps)
  have f10: "fl (3 / 2 ^ 112 / 2) = Num (3 / 2 ^ 113)"
    using fl_double[OF double_dyadic[of 3 "- 113"]]
    by (simp add: power_int_minus field_simps)
  have mean': "series_mean ?xs (length ?xs) = Num (7205759403792795 / 2 ^ 56)"
    using mean by (simp add: numeral_3_eq_3)
  have cov: "covariance ?xs ?xs = Num (3 / 2 ^ 113)"
    using mean' f5 f6 f7 f8 f9 f10
    by (simp add: covariance_def moments_def Let_def upt_rec at_index_def fsub_def)
  have lo: "2 powi (- 1000) \<le> (3 / 2 ^ 113 :: real)"
    by (simp add: power_int_minus field_simps)
  have hi: "(3 / 2 ^ 113 :: real) \<le> 2 ^ 1000" by simp
  from self_correlation_near_one[OF _ cov lo hi]
  obtain r where r: "calculateCorrelation ?xs ?xs = Num r" "\<bar>r - 1\<bar> \<le> 1 / 2 ^ 50" by auto
  have "(1::real) / 2 ^ 50 < 1" by simp
  with r(2) have "r \<noteq> 0" by linarith
  with r(1) have "calculateCorrelation ?xs ?xs \<noteq> Num 0" by simp
  moreover have "is_constant ?xs" by (simp add: is_constant_def)
  ultimately show ?thesis using mean by blast
qed

section \<open>Properties of the alignment\<close>

text \<open>The filter of lines 56-61 keeps exactly the points inside the window, in their order.\<close>

lemma filterByTime_eq:
  "filterByTime startTime endTime history = filter (spec_in_window startTime endTime) history"
  unfolding filterByTime_def spec_in_window_def
  by (rule filter_cong) (auto split: option.splits)




lemma align_loop_lengths:
  "length a1 = length a2 \<Longrightarrow>
   length (fst (align_loop A B (a1, a2))) = length (snd (align_loop A B (a1, a2)))"
  by (induction A arbitrary: a1 a2) (auto split: option.splits)






text \<open>
  C4, as amended: two runs of \<open>alignPriceHistories\<close> and \<open>calculateCorrelation\<close> on the
  same histories and window give the same series and the same coefficient whenever the two
  clock readings of line 52 put the same points of the histories inside the window; two
  runs at the same clock reading are the special case.
\<close>

theorem same_window_same_result:
  assumes "\<forall>p\<in>set history1 \<union> set history2.
             spec_in_window (window_start now1 minutes) now1 p =
             spec_in_window (window_start now2 minutes) now2 p"
  shows "alignPriceHistories history1 history2 minutes now1 =
           alignPriceHistories history1 history2 minutes now2
       \<and> calculateCorrelation (fst (alignPriceHistories history1 history2 minutes now1))
            (snd (alignPriceHistories history1 history2 minutes now1)) =
          calculateCorrelation (fst (alignPriceHistories history1 history2 minutes now2))
            (snd (alignPriceHistories history1 history2 minutes now2))"
proof -
  have "filter (spec_in_window (window_start now1 minutes) now1) h =
        filter (spec_in_window (window_start now2 minutes) now2) h"
    if "set h \<subseteq> set history1 \<union> set history2" for h
    using that assms by (intro filter_cong) auto
  then have "alignPriceHistories history1 history2 minutes now1 =
           alignPriceHistories history1 history2 minutes now2"
    by (simp add: alignPriceHistories_def Let_def filterByTime_eq)
  then show ?thesis by simp
qed

theorem same_window_same_result_witness:
  "alignPriceHistories
     [\<lparr>price = Num 1, lastUpdatedAt = Some 0\<rparr>, \<lparr>price = Num 2, lastUpdatedAt = Some 10\<rparr>]
     [\<lparr>price = Num 3, lastUpdatedAt = Some 1\<rparr>, \<lparr>price = Num 4, lastUpdatedAt = Some 200\<rparr>] (Num 1) 100
   = alignPriceHistories
     [\<lparr>price = Num 1, lastUpdatedAt = Some 0\<rparr>, \<lparr>price = Num 2, lastUpdatedAt = Some 10\<rparr>]
     [\<lparr>price = Num 3, lastUpdatedAt = Some 1\<rparr>, \<lparr>price = Num 4, lastUpdatedAt = Some 200\<rparr>] (Num 1) 150
   \<and> alignPriceHistories
     [\<lparr>price = Num 1, lastUpdatedAt = Some 0\<rparr>, \<lparr>price = Num 2, lastUpdatedAt = Some 10\<rparr>]
     [\<lparr>price = Num 3, lastUpdatedAt = Some 1\<rparr>, \<lparr>price = Num 4, lastUpdatedAt = Some 200\<rparr>] (Num 1) 100
   = ([Num 1, Num 2], [Num 3, Num 3])"
proof -
  have same: "\<forall>p\<in>set [\<lparr>price = Num 1, lastUpdatedAt = Some 0\<rparr>, \<lparr>price = Num 2, lastUpdatedAt = Some 10\<rparr>]
          \<union> set [\<lparr>price = Num 3, lastUpdatedAt = Some 1\<rparr>, \<lparr>price = Num 4, lastUpdatedAt = Some 200\<rparr>].
        spec_in_window (window_start 100 (Num 1)) 100 p = spec_in_window (window_start 150 (Num 1)) 150 p"
    by (simp add: spec_in_window_def window_start_def new_Date_def fsub_def fl_small)
  have val: "alignPriceHistories
     [\<lparr>price = Num 1, lastUpdatedAt = Some 0\<rparr>, \<lparr>price = Num 2, lastUpdatedAt = Some 10\<rparr>]
     [\<lparr>price = Num 3, lastUpdatedAt = Some 1\<rparr>, \<lparr>price = Num 4, lastUpdatedAt = Some 200\<rparr>] (Num 1) 100
     = ([Num 1, Num 2], [Num 3, Num 3])"
    by (simp add: alignPriceHistories_def window_start_def new_Date_def fsub_def fl_small filterByTime_def Let_def)
  from same_window_same_result [OF same] val show ?thesis by simp
qed

text \<open>
  The claim C4 as stated, for equal histories and window alone, fails: the clock of line 52
  is an input too. The same histories and window give three pairs at one clock reading and
  none two minutes later, with coefficients 1 and 0.
\<close>

theorem clock_counterexample:
  "alignPriceHistories
     [\<lparr>price = Num 1, lastUpdatedAt = Some 0\<rparr>, \<lparr>price = Num 2, lastUpdatedAt = Some 10\<rparr>,
      \<lparr>price = Num 3, lastUpdatedAt = Some 20\<rparr>]
     [\<lparr>price = Num 1, lastUpdatedAt = Some 1\<rparr>, \<lparr>price = Num 2, lastUpdatedAt = Some 9\<rparr>,
      \<lparr>price = Num 3, lastUpdatedAt = Some 21\<rparr>] (Num 1) 100 = ([Num 1, Num 2, Num 3], [Num 1, Num 2, Num 3])
   \<and> alignPriceHistories
     [\<lparr>price = Num 1, lastUpdatedAt = Some 0\<rparr>, \<lparr>price = Num 2, lastUpdatedAt = Some 10\<rparr>,
      \<lparr>price = Num 3, lastUpdatedAt = Some 20\<rparr>]
     [\<lparr>price = Num 1, lastUpdatedAt = Some 1\<rparr>, \<lparr>price = Num 2, lastUpdatedAt = Some 9\<rparr>,
      \<lparr>price = Num 3, lastUpdatedAt = Some 21\<rparr>] (Num 1) 120000 = ([], [])
   \<and> calculateCorrelation [Num 1, Num 2, Num 3] [Num 1, Num 2, Num 3] = Num 1
   \<and> calculateCorrelation [] [] = Num 0
   \<and> calculateCorrelation [Num 1, Num 2, Num 3] [Num 1, Num 2, Num 3] \<noteq> calculateCorrelation [] []"
  by (simp add: alignPriceHistories_def window_start_def new_Date_def fsub_def fl_small filterByTime_def Let_def
       calculateCorrelation_def zero_stddev_guard_def covariance_def divisor_def moments_def
       series_mean_def at_index_def upt_rec)

section \<open>Properties of the correlation operation\<close>

lemma stockcorrelation_ok:
  assumes "stockcorrelation ToNumber up tm q w = (Status200 body, w')"
  shows "\<exists>ticker1 ticker2 history1 history2 m.
           body = correlation_result ticker1 ticker2 history1 history2 m (tAlign tm)"
  using assms
  by (auto simp: stockcorrelation_def split: if_splits option.splits query_value.splits
        list.splits prod.splits sum.splits) blast

lemma correlation_result_correlation:
  "correlation (correlation_result ticker1 ticker2 history1 history2 m now) =
     calculateCorrelation (fst (alignPriceHistories history1 history2 m now))
       (snd (alignPriceHistories history1 history2 m now))"
  by (simp add: correlation_result_def split: prod.splits)

text \<open>
  C5: the two series returned by \<open>alignPriceHistories\<close> have the same length, for all
  histories, windows and clock readings; and whenever the correlation operation answers
  200, the coefficient it reports is \<open>calculateCorrelation\<close> of the two series of one
  alignment, which have the same length.
\<close>

theorem aligned_equal_length:
  "length (fst (alignPriceHistories history1 history2 minutes now)) =
     length (snd (alignPriceHistories history1 history2 minutes now))
   \<and> (stockcorrelation ToNumber up tm q w = (Status200 body, w') \<longrightarrow>
        (\<exists>h1 h2 m.
           correlation body =
             calculateCorrelation (fst (alignPriceHistories h1 h2 m (tAlign tm)))
               (snd (alignPriceHistories h1 h2 m (tAlign tm)))
         \<and> length (fst (alignPriceHistories h1 h2 m (tAlign tm))) =
             length (snd (alignPriceHistories h1 h2 m (tAlign tm)))))"
proof (intro conjI impI)
  show len: "length (fst (alignPriceHistories h1 h2 m t)) =
     length (snd (alignPriceHistories h1 h2 m t))" for h1 h2 m t
    by (simp add: alignPriceHistories_def Let_def align_loop_lengths)
  assume "stockcorrelation ToNumber up tm q w = (Status200 body, w')"
  from stockcorrelation_ok[OF this] obtain ticker1 ticker2 h1 h2 m
    where "body = correlation_result ticker1 ticker2 h1 h2 m (tAlign tm)" by blast
  then have "correlation body =
             calculateCorrelation (fst (alignPriceHistories h1 h2 m (tAlign tm)))
               (snd (alignPriceHistories h1 h2 m (tAlign tm)))"
    by (simp add: correlation_result_correlation)
  with len[of h1 h2 m "tAlign tm"]
  show "\<exists>h1 h2 m.
           correlation body =
             calculateCorrelation (fst (alignPriceHistories h1 h2 m (tAlign tm)))
               (snd (alignPriceHistories h1 h2 m (tAlign tm)))
         \<and> length (fst (alignPriceHistories h1 h2 m (tAlign tm))) =
             length (snd (alignPriceHistories h1 h2 m (tAlign tm)))"
    by blast
qed

theorem aligned_equal_length_witness:
  "length (fst (alignPriceHistories
     [\<lparr>price = Num 1, lastUpdatedAt = Some 0\<rparr>, \<lparr>price = Num 2, lastUpdatedAt = Some 10\<rparr>]
     [\<lparr>price = Num 3, lastUpdatedAt = Some 1\<rparr>, \<lparr>price = Num 4, lastUpdatedAt = Some 200\<rparr>] (Num 1) 100))
   = length (snd (alignPriceHistories
     [\<lparr>price = Num 1, lastUpdatedAt = Some 0\<rparr>, \<lparr>price = Num 2, lastUpdatedAt = Some 10\<rparr>]
     [\<lparr>price = Num 3, lastUpdatedAt = Some 1\<rparr>, \<lparr>price = Num 4, lastUpdatedAt = Some 200\<rparr>] (Num 1) 100))
   \<and> (\<exists>body w'.
        stockcorrelation (\<lambda>s. if s = ''5'' then Num 5 else NaN)
          (\<lambda>ticker minutes now. ArrayBody [\<lparr>price = Num 7, lastUpdatedAt = Some 0\<rparr>])
          \<lparr>tRequest = 0, tResponse1 = 1, tResponse2 = 2, tAlign = 3\<rparr>
          \<lparr>q_minutes = Some ''5'', q_ticker = Multiple [''A'', ''B'']\<rparr>
          \<lparr>cache = Map.empty, upstreamCalls = []\<rparr> = (Status200 body, w')
      \<and> (\<exists>h1 h2 m.
           correlation body =
             calculateCorrelation (fst (alignPriceHistories h1 h2 m 3))
               (snd (alignPriceHistories h1 h2 m 3))
         \<and> length (fst (alignPriceHistories h1 h2 m 3)) =
             length (snd (alignPriceHistories h1 h2 m 3))))"
proof -
  let ?run = "stockcorrelation (\<lambda>s. if s = ''5'' then Num 5 else NaN)
          (\<lambda>ticker minutes now. ArrayBody [\<lparr>price = Num 7, lastUpdatedAt = Some 0\<rparr>])
          \<lparr>tRequest = 0, tResponse1 = 1, tResponse2 = 2, tAlign = 3\<rparr>
          \<lparr>q_minutes = Some ''5'', q_ticker = Multiple [''A'', ''B'']\<rparr>
          \<lparr>cache = Map.empty, upstreamCalls = []\<rparr>"
  let ?body = "correlation_result ''A'' ''B'' [\<lparr>price = Num 7, lastUpdatedAt = Some 0\<rparr>]
      [\<lparr>price = Num 7, lastUpdatedAt = Some 0\<rparr>] (Num 5) 3"
  have "fst ?run = Status200 ?body"
    by (simp add: stockcorrelation_def invalid_minutes_def fetch_both_def
      fetch_start_def fetch_settle_def fetch_finish_def cache_get_def cache_set_def cacheKey_def
      stdTTL_def)
  then have run: "?run = (Status200 ?body, snd ?run)"
    by (simp add: prod_eq_iff)
  from aligned_equal_length [of "[\<lparr>price = Num 1, lastUpdatedAt = Some 0\<rparr>, \<lparr>price = Num 2, lastUpdatedAt = Some 10\<rparr>]"
     "[\<lparr>price = Num 3, lastUpdatedAt = Some 1\<rparr>, \<lparr>price = Num 4, lastUpdatedAt = Some 200\<rparr>]" "Num 1" 100
     "\<lambda>s. if s = ''5'' then Num 5 else NaN"
     "\<lambda>ticker minutes now. ArrayBody [\<lparr>price = Num 7, lastUpdatedAt = Some 0\<rparr>]"
     "\<lparr>tRequest = 0, tResponse1 = 1, tResponse2 = 2, tAlign = 3\<rparr>"
     "\<lparr>q_minutes = Some ''5'', q_ticker = Multiple [''A'', ''B'']\<rparr>"
     "\<lparr>cache = Map.empty, upstreamCalls = []\<rparr>" ?body "snd ?run"] run
  show ?thesis
    by (metis timing.select_convs(4))
qed

text \<open>
  C1, as amended: when the ticker parameter is not an array of exactly two symbols, the
  correlation operation answers 400 and leaves the cache and the log of upstream requests
  as they were. The two symbols need not differ.
\<close>

theorem no_fetch_without_two_tickers:
  assumes "\<not> (\<exists>ticker1 ticker2. q_ticker q = Multiple [ticker1, ticker2])"
  shows "\<exists>message. stockcorrelation ToNumber up tm q w = (Status400 message, w)"
proof (cases "invalid_minutes ToNumber (q_minutes q)")
  case True
  then show ?thesis by (simp add: stockcorrelation_def)
next
  case False
  have "invalid_ticker (q_ticker q)"
  proof (cases "q_ticker q")
    case (Multiple ts)
    with assms have "ts \<noteq> [ts ! 0, ts ! 1] \<or> length ts \<noteq> 2" by auto
    moreover have "length ts = 2 \<Longrightarrow> ts = [ts ! 0, ts ! 1]"
      by (cases ts; cases "tl ts") auto
    ultimately show ?thesis using Multiple by auto
  qed simp_all
  with False show ?thesis by (simp add: stockcorrelation_def)
qed

theorem no_fetch_without_two_tickers_witness:
  "\<not> (\<exists>ticker1 ticker2. Multiple [''A'', ''B'', ''C''] = Multiple [ticker1, ticker2])
   \<and> (\<exists>message.
        stockcorrelation (\<lambda>s. if s = ''5'' then Num 5 else NaN)
          (\<lambda>ticker minutes now. ArrayBody [\<lparr>price = Num 7, lastUpdatedAt = Some 0\<rparr>])
          \<lparr>tRequest = 0, tResponse1 = 1, tResponse2 = 2, tAlign = 3\<rparr>
          \<lparr>q_minutes = Some ''5'', q_ticker = Multiple [''A'', ''B'', ''C'']\<rparr>
          \<lparr>cache = Map.empty, upstreamCalls = []\<rparr>
        = (Status400 message, \<lparr>cache = Map.empty, upstreamCalls = []\<rparr>))"
  using no_fetch_without_two_tickers
     [of "\<lparr>q_minutes = Some ''5'', q_ticker = Multiple [''A'', ''B'', ''C'']\<rparr>"
         "\<lambda>s. if s = ''5'' then Num 5 else NaN"
         "\<lambda>ticker minutes now. ArrayBody [\<lparr>price = Num 7, lastUpdatedAt = Some 0\<rparr>]"
         "\<lparr>tRequest = 0, tResponse1 = 1, tResponse2 = 2, tAlign = 3\<rparr>"
         "\<lparr>cache = Map.empty, upstreamCalls = []\<rparr>"]
  by simp

text \<open>
  The claim C1 as stated fails for a repeated symbol: the tickers \<open>A, A\<close> are not two
  distinct symbols, yet the answer is 200 and two upstream requests are issued.
\<close>

theorem same_ticker_counterexample:
  "\<not> spec_two_distinct_tickers (Multiple [''A'', ''A''])
   \<and> fst (stockcorrelation (\<lambda>s. if s = ''5'' then Num 5 else NaN)
          (\<lambda>ticker minutes now. ArrayBody [\<lparr>price = Num 7, lastUpdatedAt = Some 0\<rparr>])
          \<lparr>tRequest = 0, tResponse1 = 1, tResponse2 = 2, tAlign = 3\<rparr>
          \<lparr>q_minutes = Some ''5'', q_ticker = Multiple [''A'', ''A'']\<rparr>
          \<lparr>cache = Map.empty, upstreamCalls = []\<rparr>)
       = Status200 \<lparr>correlation = Num 0,
           stocks = [(''A'', \<lparr>averagePrice = Num 7,
                      priceHistory = [\<lparr>price = Num 7, lastUpdatedAt = Some 0\<rparr>]\<rparr>)]\<rparr>
   \<and> upstreamCalls (snd (stockcorrelation (\<lambda>s. if s = ''5'' then Num 5 else NaN)
          (\<lambda>ticker minutes now. ArrayBody [\<lparr>price = Num 7, lastUpdatedAt = Some 0\<rparr>])
          \<lparr>tRequest = 0, tResponse1 = 1, tResponse2 = 2, tAlign = 3\<rparr>
          \<lparr>q_minutes = Some ''5'', q_ticker = Multiple [''A'', ''A'']\<rparr>
          \<lparr>cache = Map.empty, upstreamCalls = []\<rparr>))
       = [(''A'', ''5''), (''A'', ''5'')]"
  by (simp add: spec_two_distinct_tickers_def stockcorrelation_def invalid_minutes_def fetch_both_def
      fetch_start_def fetch_settle_def fetch_finish_def cache_get_def cache_set_def cacheKey_def
      stdTTL_def correlation_result_def alignPriceHistories_def window_start_def new_Date_def fsub_def fl_small
      filterByTime_def calculateCorrelation_def calculateAveragePrice_def Let_def)

section \<open>Properties of the cached fetch\<close>

lemma fetch_miss:
  assumes "cache_get (cache w) (cacheKey ticker minutes) t0 = None"
  shows "fetchStockPriceHistory up ticker minutes t0 t1 w =
           fetch_finish up ticker minutes t1 (w\<lparr>upstreamCalls := upstreamCalls w @ [(ticker, minutes)]\<rparr>)"
  using assms by (simp add: fetchStockPriceHistory_def fetch_start_def fetch_settle_def)

lemma fetch_hit:
  assumes "cache_get (cache w) (cacheKey ticker minutes) t0 = Some v"
  shows "fetchStockPriceHistory up ticker minutes t0 t1 w = (Inr v, w)"
  using assms by (simp add: fetchStockPriceHistory_def fetch_start_def fetch_settle_def)

lemma fetch_finish_ok:
  assumes "fetch_finish up ticker minutes t1 w = (Inr v, w1)"
  shows "cache w1 (cacheKey ticker minutes) = Some \<lparr>cached = v, expiresAt = t1 + 300 * 1000\<rparr>
       \<and> upstreamCalls w1 = upstreamCalls w"
  using assms
  by (auto simp: fetch_finish_def cache_set_def stdTTL_def split: upstream_response.splits)

lemma fetch_finish_calls:
  "upstreamCalls (snd (fetch_finish up ticker minutes t1 w)) = upstreamCalls w"
  by (auto simp: fetch_finish_def split: upstream_response.splits)

text \<open>
  C3: after a fetch that missed the cache at \<open>t0\<close> and stored the response at \<open>t1\<close>, one
  upstream request has been issued; a second fetch of the same ticker and minutes started
  at \<open>t2\<close> within 300 seconds of \<open>t1\<close> returns the stored value and changes nothing, so no
  further request is issued; and when \<open>t2\<close> is later than 300 seconds after \<open>t1\<close> the
  lookup misses and the second fetch issues a second upstream request.
\<close>

theorem cache_ttl:
  assumes miss: "cache_get (cache w) (cacheKey ticker minutes) t0 = None"
      and first: "fetchStockPriceHistory up ticker minutes t0 t1 w = (Inr v, w1)"
  shows "upstreamCalls w1 = upstreamCalls w @ [(ticker, minutes)]
       \<and> (t1 \<le> t2 \<and> t2 \<le> t1 + 300 * 1000 \<longrightarrow>
            fetchStockPriceHistory up ticker minutes t2 t3 w1 = (Inr v, w1))
       \<and> (t1 + 300 * 1000 < t2 \<longrightarrow>
            cache_get (cache w1) (cacheKey ticker minutes) t2 = None
          \<and> upstreamCalls (snd (fetchStockPriceHistory up ticker minutes t2 t3 w1)) =
              upstreamCalls w @ [(ticker, minutes), (ticker, minutes)])"
proof -
  from first have fin: "fetch_finish up ticker minutes t1
        (w\<lparr>upstreamCalls := upstreamCalls w @ [(ticker, minutes)]\<rparr>) = (Inr v, w1)"
    by (simp add: fetch_miss[OF miss])
  from fetch_finish_ok[OF fin]
  have entry: "cache w1 (cacheKey ticker minutes) = Some \<lparr>cached = v, expiresAt = t1 + 300 * 1000\<rparr>"
    and calls: "upstreamCalls w1 = upstreamCalls w @ [(ticker, minutes)]"
    by simp_all
  have hit: "fetchStockPriceHistory up ticker minutes t2 t3 w1 = (Inr v, w1)"
    if "t2 \<le> t1 + 300 * 1000"
    using that entry by (intro fetch_hit) (simp add: cache_get_def)
  have expired: "cache_get (cache w1) (cacheKey ticker minutes) t2 = None"
    if "t1 + 300 * 1000 < t2"
    using that entry by (simp add: cache_get_def)
  have again: "upstreamCalls (snd (fetchStockPriceHistory up ticker minutes t2 t3 w1)) =
              upstreamCalls w @ [(ticker, minutes), (ticker, minutes)]"
    if "t1 + 300 * 1000 < t2"
    using calls by (simp add: fetch_miss[OF expired[OF that]] fetch_finish_calls)
  show ?thesis using calls hit expired again by blast
qed

theorem cache_ttl_witness:
  "cache_get (cache \<lparr>cache = Map.empty, upstreamCalls = []\<rparr>) (cacheKey ''A'' ''5'') 0 = None
   \<and> fetchStockPriceHistory (\<lambda>ticker minutes now. StockBody \<lparr>price = Num 7, lastUpdatedAt = Some now\<rparr>)
        ''A'' ''5'' 0 5 \<lparr>cache = Map.empty, upstreamCalls = []\<rparr>
      = (Inr [\<lparr>price = Num 7, lastUpdatedAt = Some 5\<rparr>],
         \<lparr>cache = [''A:5'' \<mapsto> \<lparr>cached = [\<lparr>price = Num 7, lastUpdatedAt = Some 5\<rparr>], expiresAt = 300005\<rparr>],
          upstreamCalls = [(''A'', ''5'')]\<rparr>)
   \<and> fetchStockPriceHistory (\<lambda>ticker minutes now. StockBody \<lparr>price = Num 7, lastUpdatedAt = Some now\<rparr>)
        ''A'' ''5'' 300005 300009
        \<lparr>cache = [''A:5'' \<mapsto> \<lparr>cached = [\<lparr>price = Num 7, lastUpdatedAt = Some 5\<rparr>], expiresAt = 300005\<rparr>],
          upstreamCalls = [(''A'', ''5'')]\<rparr>
      = (Inr [\<lparr>price = Num 7, lastUpdatedAt = Some 5\<rparr>],
         \<lparr>cache = [''A:5'' \<mapsto> \<lparr>cached = [\<lparr>price = Num 7, lastUpdatedAt = Some 5\<rparr>], expiresAt = 300005\<rparr>],
          upstreamCalls = [(''A'', ''5'')]\<rparr>)
   \<and> upstreamCalls (snd (fetchStockPriceHistory
        (\<lambda>ticker minutes now. StockBody \<lparr>price = Num 7, lastUpdatedAt = Some now\<rparr>)
        ''A'' ''5'' 300006 300009
        \<lparr>cache = [''A:5'' \<mapsto> \<lparr>cached = [\<lparr>price = Num 7, lastUpdatedAt = Some 5\<rparr>], expiresAt = 300005\<rparr>],
          upstreamCalls = [(''A'', ''5'')]\<rparr>))
      = [(''A'', ''5''), (''A'', ''5'')]"
proof -
  let ?up = "\<lambda>ticker minutes now. StockBody \<lparr>price = Num 7, lastUpdatedAt = Some (now::int)\<rparr>"
  let ?w = "\<lparr>cache = Map.empty, upstreamCalls = []\<rparr>"
  let ?w1 = "\<lparr>cache = [''A:5'' \<mapsto> \<lparr>cached = [\<lparr>price = Num 7, lastUpdatedAt = Some 5\<rparr>], expiresAt = 300005\<rparr>],
          upstreamCalls = [(''A'', ''5'')]\<rparr>"
  have miss: "cache_get (cache ?w) (cacheKey ''A'' ''5'') 0 = None"
    by (simp add: cache_get_def)
  have first: "fetchStockPriceHistory ?up ''A'' ''5'' 0 5 ?w
      = (Inr [\<lparr>price = Num 7, lastUpdatedAt = Some 5\<rparr>], ?w1)"
    by (simp add: fetchStockPriceHistory_def fetch_start_def fetch_settle_def fetch_finish_def
        cache_get_def cache_set_def cacheKey_def stdTTL_def)
  from cache_ttl [OF miss first, of 300005 300009] cache_ttl [OF miss first, of 300006 300009]
  show ?thesis using miss first by simp
qed

end
